theory Spec2Isabelle
  imports Main "HOL-Library.Extended_Nat"
begin

section \<open>Strings\<close>

text \<open>
  JavaScript strings are modelled as \<open>string\<close>, one \<open>char\<close> per code unit; the model
  covers text whose code units are below 256.

  \<open>js_includes s sub\<close> is \<^verbatim>\<open>s.includes(sub)\<close>: \<open>sub\<close> occurs in \<open>s\<close> as a contiguous run.
\<close>

fun starts_with :: "string \<Rightarrow> string \<Rightarrow> bool" where
  "starts_with s [] = True"
| "starts_with [] (c # sub) = False"
| "starts_with (d # s) (c # sub) = (d = c \<and> starts_with s sub)"

fun js_includes :: "string \<Rightarrow> string \<Rightarrow> bool" where
  "js_includes [] sub = (sub = [])"
| "js_includes (d # s) sub = (starts_with (d # s) sub \<or> js_includes s sub)"

text \<open>
  The white space of \<^verbatim>\<open>String.prototype.trim\<close> among the code units below 256: tab, line
  feed, vertical tab, form feed, carriage return, space and the no-break space.
  \<open>blank s\<close> is \<^verbatim>\<open>!s.trim()\<close>: nothing is left of \<open>s\<close> once its white space is trimmed.
\<close>

definition is_space :: "char \<Rightarrow> bool" where
  "is_space c = ((of_char c :: nat) \<in> {9, 10, 11, 12, 13, 32, 160})"

definition trim :: "string \<Rightarrow> string" where
  "trim s = rev (dropWhile is_space (rev (dropWhile is_space s)))"

definition blank :: "string \<Rightarrow> bool" where
  "blank s = (trim s = [])"

section \<open>The duration of a video (index.ts, parseDuration)\<close>

text \<open>
  \<^verbatim>\<open>duration.match(/PT(?:(\d+)H)?(?:(\d+)M)?(?:(\d+)S)?/)\<close> is not anchored: it matches at the
  leftmost \<^verbatim>\<open>PT\<close> of the string, and there it always succeeds, since the three groups are
  optional. \<open>after_PT\<close> is the text that follows that leftmost \<^verbatim>\<open>PT\<close>.
\<close>

fun after_PT :: "string \<Rightarrow> string option" where
  "after_PT (c # d # s) = (if c = CHR ''P'' \<and> d = CHR ''T'' then Some s else after_PT (d # s))"
| "after_PT s = None"

definition is_digit :: "char \<Rightarrow> bool" where
  "is_digit c = (c \<in> set ''0123456789'')"

text \<open>
  One group \<^verbatim>\<open>(?:(\d+)U)?\<close> for a unit letter \<open>U\<close>: the digits are taken greedily and the
  unit must follow them. Giving digits back cannot help (the next character would be a
  digit, not the unit), so when the unit does not follow, the group matches nothing and
  the text is left where it was. The result is the captured digits and the rest.
\<close>

definition unit_group :: "char \<Rightarrow> string \<Rightarrow> string option \<times> string" where
  "unit_group u s =
     (case dropWhile is_digit s of
        [] \<Rightarrow> (None, s)
      | c # r \<Rightarrow> if takeWhile is_digit s \<noteq> [] \<and> c = u then (Some (takeWhile is_digit s), r)
                 else (None, s))"

text \<open>The captures \<^verbatim>\<open>match[1]\<close>, \<^verbatim>\<open>match[2]\<close>, \<^verbatim>\<open>match[3]\<close>, or \<open>None\<close> for no match.\<close>

definition match_duration :: "string \<Rightarrow> (string option \<times> string option \<times> string option) option" where
  "match_duration duration =
     (case after_PT duration of
        None \<Rightarrow> None
      | Some r0 \<Rightarrow>
          (let (h, r1) = unit_group (CHR ''H'') r0;
               (m, r2) = unit_group (CHR ''M'') r1;
               (s, r3) = unit_group (CHR ''S'') r2
           in Some (h, m, s)))"

subsection \<open>JavaScript numbers\<close>

text \<open>
  A JavaScript number is an IEEE 754 double. The numbers that arise here are the doubles
  that are non-negative integers, and \<^verbatim>\<open>Infinity\<close>: they are modelled as \<open>enat\<close>, with
  \<open>\<infinity>\<close> for \<^verbatim>\<open>Infinity\<close>.

  \<open>to_double n\<close> is the double nearest to the integer \<open>n\<close>, ties to even. Below \<open>2 ^ 53\<close>
  every integer is a double. From there on a double has 53 significant bits: with \<open>e\<close>
  the number of bits beyond 53, \<open>n\<close> is rounded to a multiple of \<open>2 ^ e\<close>, and what
  reaches \<open>2 ^ 1024\<close> is \<^verbatim>\<open>Infinity\<close>.
\<close>

fun bit_length :: "nat \<Rightarrow> nat" where
  "bit_length n = (if n = 0 then 0 else Suc (bit_length (n div 2)))"

declare bit_length.simps [simp del]

definition to_double :: "nat \<Rightarrow> enat" where
  "to_double n =
     (if n < 2 ^ 53 then enat n
      else (let e = bit_length n - 53;
                q = n div 2 ^ e;
                low = n mod 2 ^ e;
                half = 2 ^ (e - 1);
                q' = (if half < low \<or> (low = half \<and> odd q) then q + 1 else q)
            in if 2 ^ 1024 \<le> q' * 2 ^ e then \<infinity> else enat (q' * 2 ^ e)))"

text \<open>
  The product of a number and a positive integer constant, and the sum of two numbers:
  the exact result, rounded. \<^verbatim>\<open>Infinity\<close> times a positive constant and \<^verbatim>\<open>Infinity\<close> plus a
  number are \<^verbatim>\<open>Infinity\<close>.
\<close>

definition times_double :: "enat \<Rightarrow> nat \<Rightarrow> enat" where
  "times_double a k = (case a of enat x \<Rightarrow> to_double (x * k) | \<infinity> \<Rightarrow> \<infinity>)"

definition plus_double :: "enat \<Rightarrow> enat \<Rightarrow> enat" where
  "plus_double a b =
     (case a of
        enat x \<Rightarrow> (case b of enat y \<Rightarrow> to_double (x + y) | \<infinity> \<Rightarrow> \<infinity>)
      | \<infinity> \<Rightarrow> \<infinity>)"

text \<open>
  \<^verbatim>\<open>parseInt\<close> on a run of decimal digits: the integer that the digits write
  (\<open>mathInt\<close>), as a number. The engine of the Workers runtime rounds it to the nearest
  double.
\<close>

definition digit_value :: "char \<Rightarrow> nat" where
  "digit_value c = of_char c - 48"

definition mathInt :: "string \<Rightarrow> nat" where
  "mathInt ds = foldl (\<lambda>n c. 10 * n + digit_value c) 0 ds"

definition parseInt :: "string \<Rightarrow> enat" where
  "parseInt ds = to_double (mathInt ds)"

text \<open>\<^verbatim>\<open>match[i] || '0'\<close>: an absent (or empty) capture reads as \<^verbatim>\<open>'0'\<close>.\<close>

definition or_zero :: "string option \<Rightarrow> string" where
  "or_zero g = (case g of None \<Rightarrow> ''0'' | Some ds \<Rightarrow> if ds = [] then ''0'' else ds)"

definition parseDuration :: "string \<Rightarrow> enat" where
  "parseDuration duration =
     (case match_duration duration of
        None \<Rightarrow> 0
      | Some (h, m, s) \<Rightarrow>
          (let hours = parseInt (or_zero h);
               minutes = parseInt (or_zero m);
               seconds = parseInt (or_zero s)
           in plus_double (plus_double (times_double hours 3600) (times_double minutes 60))
                seconds))"

text \<open>
  \<^verbatim>\<open>const useLowResolution = force_low_resolution || durationSeconds > 3600\<close>, the same
  expression in the tool \<^verbatim>\<open>analyze_youtube_video\<close> and in \<^verbatim>\<open>POST /api/jobs\<close>.
\<close>

definition useLowResolution :: "bool \<Rightarrow> enat \<Rightarrow> bool" where
  "useLowResolution force_low_resolution durationSeconds =
     (force_low_resolution \<or> durationSeconds > 3600)"

subsection \<open>The duration format, as the specification words it\<close>







section \<open>The job table (schema of video_analysis_jobs)\<close>

datatype status = pending | processing | completed | failed

text \<open>
  One row of \<^verbatim>\<open>video_analysis_jobs\<close>, without its primary key \<^verbatim>\<open>id\<close>: the table is a map
  from the id to the row. A nullable column is an \<open>option\<close>; \<open>estimated_duration\<close> holds the
  number that the insert is given. The three time columns are
  declared \<^verbatim>\<open>integer(..., { mode: "timestamp" })\<close>: the store keeps whole seconds since the
  epoch, written from a \<^verbatim>\<open>Date\<close> as \<open>to_driver\<close> and read back as \<open>from_driver\<close>
  (milliseconds).
\<close>

record job =
  status :: status
  youtube_url :: string
  question :: string
  model :: string
  result :: "string option"
  error :: "string option"
  use_low_resolution :: "bool option"
  estimated_duration :: "enat option"
  processing_time :: "int option"
  created_at :: int
  started_at :: "int option"
  completed_at :: "int option"

definition to_driver :: "int \<Rightarrow> int" where
  "to_driver ms = ms div 1000"

definition from_driver :: "int \<Rightarrow> int" where
  "from_driver secs = secs * 1000"

text \<open>What \<^verbatim>\<open>client.models.generateContentStream\<close> is called with.\<close>

record gen_request =
  req_model :: string
  req_low_resolution :: bool
  req_file_uri :: string
  req_question :: string

text \<open>
  The state outside one call: the table, the requests sent to the analysis provider so
  far, and the job ids sent to the queue so far.
\<close>

record world =
  jobs :: "string \<rightharpoonup> job"
  provider_calls :: "gen_request list"
  sent :: "string list"

text \<open>
  \<^verbatim>\<open>db.update(...).set(...).where(eq(id, jobId))\<close>: the row with that id is changed; when
  there is none, nothing is changed and nothing is raised.
\<close>

definition update_where :: "string \<Rightarrow> (job \<Rightarrow> job) \<Rightarrow> world \<Rightarrow> world" where
  "update_where jobId f w =
     (case jobs w jobId of
        None \<Rightarrow> w
      | Some j \<Rightarrow> w\<lparr>jobs := (jobs w)(jobId \<mapsto> f j)\<rparr>)"

section \<open>Creating a job (index.ts, analyze_youtube_video and POST /api/jobs)\<close>

text \<open>
  The row that \<^verbatim>\<open>db.insert(...).values({...})\<close> stores: the five values given, and the
  schema's defaults for the rest.
\<close>

definition new_job :: "string \<Rightarrow> string \<Rightarrow> string \<Rightarrow> bool \<Rightarrow> enat \<Rightarrow> int \<Rightarrow> job" where
  "new_job video_url q mdl low durationSeconds now =
     \<lparr>status = pending, youtube_url = video_url, question = q, model = mdl,
      result = None, error = None, use_low_resolution = Some low,
      estimated_duration = Some durationSeconds, processing_time = None,
      created_at = to_driver now, started_at = None, completed_at = None\<rparr>"

text \<open>
  Both entry points, from the point where the video's details are known: \<open>duration\<close> is
  \<^verbatim>\<open>videoDetails.contentDetails.duration\<close>, \<open>newId\<close> the id that \<^verbatim>\<open>createId()\<close> yields and
  \<open>now\<close> the clock in milliseconds.
\<close>

definition create_job ::
  "string \<Rightarrow> int \<Rightarrow> string \<Rightarrow> string \<Rightarrow> string \<Rightarrow> bool \<Rightarrow> string \<Rightarrow> world \<Rightarrow> world" where
  "create_job newId now video_url q mdl force_low_resolution duration w =
     (let durationSeconds = parseDuration duration;
          low = useLowResolution force_low_resolution durationSeconds
      in w\<lparr>jobs := (jobs w)(newId \<mapsto> new_job video_url q mdl low durationSeconds now),
           sent := sent w @ [newId]\<rparr>)"

section \<open>Processing a job (index.ts, processVideoAnalysis)\<close>

text \<open>
  A thrown value: an \<^verbatim>\<open>Error\<close> with its message, or anything else
  (\<^verbatim>\<open>error instanceof Error\<close> is false).
\<close>

datatype thrown = Error string | NotAnError

text \<open>
  What the outside does during one call of \<^verbatim>\<open>processVideoAnalysis\<close>:
  \<^item> the clock, in milliseconds, where the code reads it: \<open>now_start\<close> at line 83,
    \<open>now_done\<close> at lines 149 and 156, \<open>now_catch\<close> at lines 168 and 195. The two reads of
    a terminal update have no \<^verbatim>\<open>await\<close> between them, and the Workers runtime advances the
    clock only at I/O, so they are one value;
  \<^item> each of the five store operations raising or not;
  \<^item> the provider's stream: its chunks (\<^verbatim>\<open>chunk.text\<close>, possibly undefined) and whether
    the call or the stream raises. What was accumulated before a raise is dropped with
    the local variable.
\<close>

record run =
  now_start :: int
  now_done :: int
  now_catch :: int
  update_processing_raises :: "thrown option"
  select_raises :: "thrown option"
  stream_chunks :: "string option list"
  stream_raises :: "thrown option"
  update_completed_raises :: "thrown option"
  catch_select_raises :: "thrown option"
  update_failed_raises :: "thrown option"

text \<open>
  Lines 80-85: the update that sets \<^verbatim>\<open>processing\<close> and \<^verbatim>\<open>started_at\<close>. Its \<^verbatim>\<open>where\<close> names the
  id only: there is no condition on the stored status.
\<close>

definition mark_processing :: "run \<Rightarrow> string \<Rightarrow> world \<Rightarrow> thrown + world" where
  "mark_processing r jobId w =
     (case update_processing_raises r of
        Some x \<Rightarrow> Inl x
      | None \<Rightarrow>
          Inr (update_where jobId
                 (\<lambda>j. j\<lparr>status := processing, started_at := Some (to_driver (now_start r))\<rparr>) w))"

text \<open>Lines 136-141: \<^verbatim>\<open>if (chunk.text) analysisResult += chunk.text\<close>.\<close>

fun accumulate :: "string option list \<Rightarrow> string" where
  "accumulate [] = []"
| "accumulate (None # cs) = accumulate cs"
| "accumulate (Some t # cs) = t @ accumulate cs"

definition no_analysis_message :: string where
  "no_analysis_message =
     ''No analysis could be generated for this video. The video might be private, age-restricted, or unavailable.''"

text \<open>Lines 148-149 and 167-168: the processing time from the \<^verbatim>\<open>started_at\<close> that was read.\<close>

definition processingTime :: "int \<Rightarrow> int option \<Rightarrow> int" where
  "processingTime now started =
     (case started of
        None \<Rightarrow> 0
      | Some s \<Rightarrow> (now - from_driver s) div 1000)"

definition request_of :: "job \<Rightarrow> gen_request" where
  "request_of j =
     \<lparr>req_model = model j, req_low_resolution = (use_low_resolution j = Some True),
      req_file_uri = youtube_url j, req_question = question j\<rparr>"

text \<open>
  Lines 87-159: the rest of the \<^verbatim>\<open>try\<close> block, after the first update. The job is read
  back, the provider is called with what the row says, and the one write at the end
  stores the result.
\<close>

definition analyse :: "run \<Rightarrow> string \<Rightarrow> world \<Rightarrow> (thrown + unit) \<times> world" where
  "analyse r jobId w =
     (case select_raises r of
        Some x \<Rightarrow> (Inl x, w)
      | None \<Rightarrow>
          (case jobs w jobId of
             None \<Rightarrow> (Inl (Error ''Job not found''), w)
           | Some j \<Rightarrow>
               (let w1 = w\<lparr>provider_calls := provider_calls w @ [request_of j]\<rparr> in
                case stream_raises r of
                  Some x \<Rightarrow> (Inl x, w1)
                | None \<Rightarrow>
                    (let analysisResult = accumulate (stream_chunks r) in
                     if blank analysisResult then (Inl (Error no_analysis_message), w1)
                     else
                       (let pt = processingTime (now_done r) (started_at j) in
                        case update_completed_raises r of
                          Some x \<Rightarrow> (Inl x, w1)
                        | None \<Rightarrow>
                            (Inr (),
                             update_where jobId
                               (\<lambda>j. j\<lparr>status := completed, result := Some analysisResult,
                                      completed_at := Some (to_driver (now_done r)),
                                      processing_time := Some pt\<rparr>) w1))))))"

definition try_block :: "run \<Rightarrow> string \<Rightarrow> world \<Rightarrow> (thrown + unit) \<times> world" where
  "try_block r jobId w =
     (case mark_processing r jobId w of
        Inl x \<Rightarrow> (Inl x, w)
      | Inr w1 \<Rightarrow> analyse r jobId w1)"

text \<open>Lines 170-187: the message stored for what was caught.\<close>

definition classifyError :: "thrown \<Rightarrow> string" where
  "classifyError x =
     (case x of
        NotAnError \<Rightarrow> ''Unknown error occurred during video analysis''
      | Error message \<Rightarrow>
          if js_includes message ''API_KEY'' \<or> js_includes message ''UNAUTHENTICATED''
          then ''Invalid or missing Google Generative AI API key''
          else if js_includes message ''QUOTA_EXCEEDED'' \<or> js_includes message ''RESOURCE_EXHAUSTED''
          then ''API quota exceeded. Please try again later or upgrade your plan''
          else if js_includes message ''PERMISSION_DENIED''
          then ''Permission denied. Check your API key permissions''
          else if js_includes message ''NOT_FOUND''
          then ''Video not found or is private/unavailable''
          else if js_includes message ''INVALID_ARGUMENT''
          then ''Invalid video format or unsupported content''
          else message)"

text \<open>
  Lines 161-198: the \<^verbatim>\<open>catch\<close> block. Its own two store operations are not guarded: when
  one raises, \<^verbatim>\<open>processVideoAnalysis\<close> raises.
\<close>

definition catch_block :: "run \<Rightarrow> string \<Rightarrow> thrown \<Rightarrow> world \<Rightarrow> (thrown + unit) \<times> world" where
  "catch_block r jobId x w =
     (case catch_select_raises r of
        Some y \<Rightarrow> (Inl y, w)
      | None \<Rightarrow>
          (let pt = (case jobs w jobId of
                       None \<Rightarrow> 0
                     | Some j \<Rightarrow> processingTime (now_catch r) (started_at j));
               errorMessage = classifyError x
           in case update_failed_raises r of
                Some y \<Rightarrow> (Inl y, w)
              | None \<Rightarrow>
                  (Inr (),
                   update_where jobId
                     (\<lambda>j. j\<lparr>status := failed, error := Some errorMessage,
                            processing_time := Some pt,
                            completed_at := Some (to_driver (now_catch r))\<rparr>) w)))"

definition processVideoAnalysis :: "run \<Rightarrow> string \<Rightarrow> world \<Rightarrow> (thrown + unit) \<times> world" where
  "processVideoAnalysis r jobId w =
     (case try_block r jobId w of
        (Inr u, w1) \<Rightarrow> (Inr u, w1)
      | (Inl x, w1) \<Rightarrow> catch_block r jobId x w1)"

subsection \<open>The call, from one await to the next\<close>

text \<open>
  \<^verbatim>\<open>processVideoAnalysis\<close> is asynchronous: it gives way at every \<^verbatim>\<open>await\<close>, and another
  delivery, of the same job too, can run in between. A call in flight stands at one of
  these points, with what it holds in its local variables:
  \<^item> \<open>Begun\<close>: before the update of lines 80-85 is applied;
  \<^item> \<open>Marked\<close>: before the read of lines 88-90;
  \<^item> \<open>Streaming job\<close>: the provider was called for \<open>job\<close>, the row as read, and its
    stream is awaited (lines 130-141);
  \<^item> \<open>Caught x\<close>: in the \<^verbatim>\<open>catch\<close> block with \<open>x\<close>, before the read of lines 163-165;
  \<^item> \<open>Reread x job\<close>: before the write of lines 190-197, with \<open>job\<close> as read at 163;
  \<^item> \<open>Returned\<close>, \<open>Raised y\<close>: the call is over.

  \<open>step\<close> runs the call up to its next \<^verbatim>\<open>await\<close>. What a write stores is computed from
  the local variables when the write is issued; the store applies it in one piece.
\<close>

datatype stage =
  Begun
| Marked
| Streaming job
| Caught thrown
| Reread thrown "job option"
| Returned
| Raised thrown

fun step :: "run \<Rightarrow> string \<Rightarrow> stage \<Rightarrow> world \<Rightarrow> stage \<times> world" where
  "step r jobId Begun w =
     (case mark_processing r jobId w of
        Inl x \<Rightarrow> (Caught x, w)
      | Inr w1 \<Rightarrow> (Marked, w1))"
| "step r jobId Marked w =
     (case select_raises r of
        Some x \<Rightarrow> (Caught x, w)
      | None \<Rightarrow>
          (case jobs w jobId of
             None \<Rightarrow> (Caught (Error ''Job not found''), w)
           | Some j \<Rightarrow>
               (Streaming j, w\<lparr>provider_calls := provider_calls w @ [request_of j]\<rparr>)))"
| "step r jobId (Streaming job) w =
     (case stream_raises r of
        Some x \<Rightarrow> (Caught x, w)
      | None \<Rightarrow>
          (let analysisResult = accumulate (stream_chunks r) in
           if blank analysisResult then (Caught (Error no_analysis_message), w)
           else
             (let pt = processingTime (now_done r) (started_at job) in
              case update_completed_raises r of
                Some x \<Rightarrow> (Caught x, w)
              | None \<Rightarrow>
                  (Returned,
                   update_where jobId
                     (\<lambda>j. j\<lparr>status := completed, result := Some analysisResult,
                            completed_at := Some (to_driver (now_done r)),
                            processing_time := Some pt\<rparr>) w))))"
| "step r jobId (Caught x) w =
     (case catch_select_raises r of
        Some y \<Rightarrow> (Raised y, w)
      | None \<Rightarrow> (Reread x (jobs w jobId), w))"
| "step r jobId (Reread x job) w =
     (let pt = (case job of
                  None \<Rightarrow> 0
                | Some j \<Rightarrow> processingTime (now_catch r) (started_at j));
          errorMessage = classifyError x
      in case update_failed_raises r of
           Some y \<Rightarrow> (Raised y, w)
         | None \<Rightarrow>
             (Returned,
              update_where jobId
                (\<lambda>j. j\<lparr>status := failed, error := Some errorMessage,
                       processing_time := Some pt,
                       completed_at := Some (to_driver (now_catch r))\<rparr>) w))"
| "step r jobId Returned w = (Returned, w)"
| "step r jobId (Raised y) w = (Raised y, w)"

text \<open>The call that nothing interrupts is five steps; \<open>outcome\<close> reads how it ended.\<close>

definition five_steps :: "run \<Rightarrow> string \<Rightarrow> world \<Rightarrow> stage \<times> world" where
  "five_steps r jobId w =
     (case step r jobId Begun w of (s1, w1) \<Rightarrow>
      case step r jobId s1 w1 of (s2, w2) \<Rightarrow>
      case step r jobId s2 w2 of (s3, w3) \<Rightarrow>
      case step r jobId s3 w3 of (s4, w4) \<Rightarrow>
      step r jobId s4 w4)"

definition outcome :: "thrown + unit \<Rightarrow> stage" where
  "outcome res = (case res of Inl y \<Rightarrow> Raised y | Inr u \<Rightarrow> Returned)"

section \<open>The queue consumer (index.ts, queue)\<close>

datatype settled = Ack | Retry

text \<open>
  The batch is the list of messages (their \<^verbatim>\<open>jobId\<close>), each with what the outside does
  while it is processed. The messages are handled one after the other; the result lists
  \<^verbatim>\<open>message.ack()\<close> or \<^verbatim>\<open>message.retry()\<close> for each, in order.
\<close>

fun queue :: "(string \<times> run) list \<Rightarrow> world \<Rightarrow> settled list \<times> world" where
  "queue [] w = ([], w)"
| "queue ((jobId, r) # batch) w =
     (case processVideoAnalysis r jobId w of
        (Inr u, w1) \<Rightarrow> (case queue batch w1 of (ds, w2) \<Rightarrow> (Ack # ds, w2))
      | (Inl x, w1) \<Rightarrow> (case queue batch w1 of (ds, w2) \<Rightarrow> (Retry # ds, w2)))"



section \<open>Histories\<close>

text \<open>
  The store changes only through the two entry points and the processor. A history is the
  list of what happened, oldest first:
  \<^item> \<open>Submit\<close>: a job is created. An insert under an id that is taken violates the
    primary key and stores nothing;
  \<^item> \<open>Arrive jobId r\<close>: a delivery for \<open>jobId\<close> starts a call of the processor, which
    joins the calls in flight;
  \<^item> \<open>Advance n\<close>: the \<open>n\<close>-th call in flight runs up to its next \<^verbatim>\<open>await\<close>. Calls advance
    in any order, so deliveries overlap, those of one job too;
  \<^item> \<open>Deliver jobId r\<close>: a delivery whose call runs from its start to its end with
    nothing else in between, as the messages of one batch do one after the other.

  \<open>history\<close> runs a history from the empty table and gives the store and the calls in
  flight; \<open>replay\<close> gives the store.
\<close>

datatype event =
  Submit string int string string string bool string
| Deliver string run
| Arrive string run
| Advance nat

type_synonym flight = "string \<times> run \<times> stage"

definition empty_world :: world where
  "empty_world = \<lparr>jobs = Map.empty, provider_calls = [], sent = []\<rparr>"

fun apply_event :: "world \<times> flight list \<Rightarrow> event \<Rightarrow> world \<times> flight list" where
  "apply_event (w, fs) (Submit newId now video_url q mdl force duration) =
     (if jobs w newId = None then create_job newId now video_url q mdl force duration w else w,
      fs)"
| "apply_event (w, fs) (Deliver jobId r) = (snd (processVideoAnalysis r jobId w), fs)"
| "apply_event (w, fs) (Arrive jobId r) = (w, fs @ [(jobId, r, Begun)])"
| "apply_event (w, fs) (Advance n) =
     (if n < length fs
      then (case fs ! n of
              (jobId, r, st) \<Rightarrow>
                (case step r jobId st w of
                   (st', w') \<Rightarrow> (w', fs[n := (jobId, r, st')])))
      else (w, fs))"

definition history :: "event list \<Rightarrow> world \<times> flight list" where
  "history evs = foldl apply_event (empty_world, []) evs"

definition replay :: "event list \<Rightarrow> world" where
  "replay evs = fst (history evs)"

text \<open>A history in which no two deliveries overlap.\<close>

fun alone :: "event \<Rightarrow> bool" where
  "alone (Submit newId now video_url q mdl force duration) = True"
| "alone (Deliver jobId r) = True"
| "alone (Arrive jobId r) = False"
| "alone (Advance n) = False"

text \<open>
  The store states that one call of the processor goes through: before it, after its
  first update when that one is made, and after it (the call writes at most twice).
\<close>

definition observed :: "run \<Rightarrow> string \<Rightarrow> world \<Rightarrow> world list" where
  "observed r jobId w =
     w # (case mark_processing r jobId w of Inl x \<Rightarrow> [] | Inr w1 \<Rightarrow> [w1])
       @ [snd (processVideoAnalysis r jobId w)]"

text \<open>The order \<^verbatim>\<open>pending, processing, completed, failed\<close> of the status column's enum.\<close>

fun rank :: "status \<Rightarrow> nat" where
  "rank pending = 0"
| "rank processing = 1"
| "rank completed = 2"
| "rank failed = 3"

definition terminal :: "status \<Rightarrow> bool" where
  "terminal s = (s = completed \<or> s = failed)"

text \<open>No store operation of the call raises.\<close>

definition store_ok :: "run \<Rightarrow> bool" where
  "store_ok r =
     (update_processing_raises r = None \<and> select_raises r = None \<and>
      update_completed_raises r = None \<and> catch_select_raises r = None \<and>
      update_failed_raises r = None)"

text \<open>\<open>sub\<close> occurs in \<open>s\<close>, as the specification words it.\<close>

definition occurs_in :: "string \<Rightarrow> string \<Rightarrow> bool" where
  "occurs_in sub s = (\<exists>p q. s = p @ sub @ q)"

subsection \<open>Sample runs\<close>

text \<open>A run with no fault and a two-chunk answer, 42.5 seconds after its start.\<close>

definition run_ok :: run where
  "run_ok =
     \<lparr>now_start = 1000000, now_done = 1042500, now_catch = 1042500,
      update_processing_raises = None, select_raises = None,
      stream_chunks = [Some ''A cat '', None, Some ''video.''], stream_raises = None,
      update_completed_raises = None, catch_select_raises = None,
      update_failed_raises = None\<rparr>"

text \<open>The provider answers with white space only.\<close>

definition run_blank :: run where
  "run_blank = run_ok\<lparr>stream_chunks := [Some '' '', Some [CHR 0x0A]]\<rparr>"

text \<open>A later delivery in which the provider raises.\<close>

definition run_quota :: run where
  "run_quota =
     run_ok\<lparr>now_start := 2000000, now_done := 2003000, now_catch := 2003000,
            stream_chunks := [], stream_raises := Some (Error ''RESOURCE_EXHAUSTED: quota'')\<rparr>"

text \<open>The same, with the store failing when the \<^verbatim>\<open>catch\<close> block reads the job.\<close>

definition run_quota_store_down :: run where
  "run_quota_store_down =
     run_quota\<lparr>catch_select_raises := Some (Error ''D1_ERROR: Network connection lost.'')\<rparr>"

text \<open>The store refuses the write of the result; the \<^verbatim>\<open>catch\<close> block's operations succeed.\<close>

definition run_write_refused :: run where
  "run_write_refused =
     run_ok\<lparr>update_completed_raises := Some (Error ''D1_ERROR: string or blob too big: SQLITE_TOOBIG'')\<rparr>"

text \<open>The store is down when the \<^verbatim>\<open>catch\<close> block writes the failure of a blank answer.\<close>

definition run_blank_write_down :: run where
  "run_blank_write_down =
     run_blank\<lparr>update_failed_raises := Some (Error ''D1_ERROR: Network connection lost.'')\<rparr>"

text \<open>A call whose stream ends only at 2010 seconds, after the call of \<open>run_quota\<close> began.\<close>

definition run_slow :: run where
  "run_slow = run_ok\<lparr>now_done := 2010000, now_catch := 2010000\<rparr>"

text \<open>A call that takes one millisecond, across the turn of a second.\<close>

definition run_short :: run where
  "run_short = run_ok\<lparr>now_start := 1999, now_done := 2000, now_catch := 2000\<rparr>"

definition submit1 :: event where
  "submit1 = Submit ''job1'' 990000 ''https://youtu.be/abc'' ''summarize'' ''gemini-2.5-flash'' False ''PT5M''"

subsection \<open>The recorded times\<close>

text \<open>
  What a terminal row records: a completion time and a processing time, the latter being
  the completion time minus the start time (whole seconds, as stored), or 0 when the row
  has no start time.
\<close>

definition timed :: "job \<Rightarrow> bool" where
  "timed j =
     (if terminal (status j)
      then (case (completed_at j, processing_time j) of
              (Some c, Some p) \<Rightarrow> p = (case started_at j of None \<Rightarrow> 0 | Some s \<Rightarrow> c - s)
            | _ \<Rightarrow> False)
      else True)"

definition all_timed :: "world \<Rightarrow> bool" where
  "all_timed w = (\<forall>k j. jobs w k = Some j \<longrightarrow> timed j)"

text \<open>The part of it that overlapping deliveries keep: a terminal row records both times.\<close>

definition recorded :: "job \<Rightarrow> bool" where
  "recorded j =
     (if terminal (status j) then completed_at j \<noteq> None \<and> processing_time j \<noteq> None else True)"

definition all_recorded :: "world \<Rightarrow> bool" where
  "all_recorded w = (\<forall>k j. jobs w k = Some j \<longrightarrow> recorded j)"

section \<open>Substrings and white space\<close>

lemma starts_with_iff: "starts_with s sub \<longleftrightarrow> (\<exists>q. s = sub @ q)"
  by (induction s sub rule: starts_with.induct) auto

lemma js_includes_occurs: "js_includes s sub \<longleftrightarrow> occurs_in sub s"
proof (induction s)
  case Nil
  then show ?case by (auto simp: occurs_in_def)
next
  case (Cons d s)
  show ?case
  proof
    assume "js_includes (d # s) sub"
    then consider "starts_with (d # s) sub" | "js_includes s sub" by auto
    then show "occurs_in sub (d # s)"
    proof cases
      case 1
      then obtain q where "d # s = sub @ q" by (auto simp: starts_with_iff)
      then have "d # s = [] @ sub @ q" by simp
      then show ?thesis unfolding occurs_in_def by blast
    next
      case 2
      then obtain p q where "s = p @ sub @ q" using Cons.IH by (auto simp: occurs_in_def)
      then have "d # s = (d # p) @ sub @ q" by simp
      then show ?thesis unfolding occurs_in_def by blast
    qed
  next
    assume "occurs_in sub (d # s)"
    then obtain p q where pq: "d # s = p @ sub @ q" unfolding occurs_in_def by blast
    show "js_includes (d # s) sub"
    proof (cases p)
      case Nil
      then have "starts_with (d # s) sub" using pq by (simp add: starts_with_iff)
      then show ?thesis by simp
    next
      case (Cons a p')
      then have "s = p' @ sub @ q" using pq by simp
      then have "occurs_in sub s" unfolding occurs_in_def by blast
      then show ?thesis using Cons.IH by simp
    qed
  qed
qed

text \<open>
  \<^verbatim>\<open>!s.trim()\<close> holds exactly of the strings that are empty or white space only.
\<close>

lemma dropWhile_all: "(\<forall>x\<in>set (dropWhile P xs). P x) \<longleftrightarrow> (\<forall>x\<in>set xs. P x)"
proof
  assume a: "\<forall>x\<in>set (dropWhile P xs). P x"
  have "dropWhile P xs = []"
  proof (rule ccontr)
    assume "dropWhile P xs \<noteq> []"
    then have "\<not> P (hd (dropWhile P xs))" "hd (dropWhile P xs) \<in> set (dropWhile P xs)"
      by (simp_all add: hd_dropWhile)
    then show False using a by blast
  qed
  then show "\<forall>x\<in>set xs. P x" by (simp add: dropWhile_eq_Nil_conv)
next
  assume "\<forall>x\<in>set xs. P x"
  then show "\<forall>x\<in>set (dropWhile P xs). P x" by (meson set_dropWhileD)
qed

lemma blank_iff: "blank s \<longleftrightarrow> list_all is_space s"
proof -
  have "blank s \<longleftrightarrow> (\<forall>x\<in>set (dropWhile is_space s). is_space x)"
    by (simp add: blank_def trim_def dropWhile_eq_Nil_conv)
  then show ?thesis by (simp add: dropWhile_all list_all_iff)
qed

section \<open>Properties of the duration parser\<close>






lemma unit_group_Nil: "unit_group u [] = (None, [])"
  by (simp add: unit_group_def)





















section \<open>The resolution decision\<close>

text \<open>
  Claim C6. The decision is low resolution when the override flag is true, and otherwise
  low resolution exactly when the duration exceeds 3600 seconds: 600 seconds without
  override is high resolution, 4000 seconds without override is low, 100 seconds with
  override is low. The decision is what the new row stores and what the request to the
  provider is built from.
\<close>

theorem resolution_decision:
  "useLowResolution force d = (if force then True else 3600 < d) \<and>
   \<not> useLowResolution False 600 \<and> useLowResolution False 4000 \<and> useLowResolution True 100 \<and>
   map_option use_low_resolution (jobs (create_job newId now video_url q mdl force duration w) newId)
     = Some (Some (if force then True else 3600 < parseDuration duration)) \<and>
   req_low_resolution (request_of (new_job video_url q mdl (useLowResolution force d) d now))
     = (if force then True else 3600 < d)"
  by (simp add: useLowResolution_def create_job_def new_job_def request_of_def Let_def)

section \<open>The error classifier\<close>

text \<open>
  Claim C5. The message of a raised \<^verbatim>\<open>Error\<close> is searched for \<^verbatim>\<open>API_KEY\<close> or
  \<^verbatim>\<open>UNAUTHENTICATED\<close>, then \<^verbatim>\<open>QUOTA_EXCEEDED\<close> or \<^verbatim>\<open>RESOURCE_EXHAUSTED\<close>, then
  \<^verbatim>\<open>PERMISSION_DENIED\<close>, then \<^verbatim>\<open>NOT_FOUND\<close>, then \<^verbatim>\<open>INVALID_ARGUMENT\<close>; the first that occurs
  decides the fixed message, and when none occurs the raw message is passed through. A
  thrown value that is not an \<^verbatim>\<open>Error\<close> has no message and gets the generic one. Within
  that order, a message with both \<^verbatim>\<open>QUOTA_EXCEEDED\<close> and \<^verbatim>\<open>NOT_FOUND\<close> (and nothing of the
  first category) is a quota error.
\<close>

theorem classifyError_first_match:
  "classifyError (Error message) =
     (if occurs_in ''API_KEY'' message \<or> occurs_in ''UNAUTHENTICATED'' message
      then ''Invalid or missing Google Generative AI API key''
      else if occurs_in ''QUOTA_EXCEEDED'' message \<or> occurs_in ''RESOURCE_EXHAUSTED'' message
      then ''API quota exceeded. Please try again later or upgrade your plan''
      else if occurs_in ''PERMISSION_DENIED'' message
      then ''Permission denied. Check your API key permissions''
      else if occurs_in ''NOT_FOUND'' message
      then ''Video not found or is private/unavailable''
      else if occurs_in ''INVALID_ARGUMENT'' message
      then ''Invalid video format or unsupported content''
      else message) \<and>
   classifyError NotAnError = ''Unknown error occurred during video analysis'' \<and>
   (occurs_in ''QUOTA_EXCEEDED'' message \<and> occurs_in ''NOT_FOUND'' message \<and>
    \<not> occurs_in ''API_KEY'' message \<and> \<not> occurs_in ''UNAUTHENTICATED'' message \<longrightarrow>
      classifyError (Error message)
        = ''API quota exceeded. Please try again later or upgrade your plan'') \<and>
   classifyError (Error ''UNAUTHENTICATED: bad key'')
     = ''Invalid or missing Google Generative AI API key''"
  by (simp add: classifyError_def js_includes_occurs [symmetric])

text \<open>
  Claim C5 at a message in which \<^verbatim>\<open>NOT_FOUND\<close> comes first in the text and
  \<^verbatim>\<open>QUOTA_EXCEEDED\<close> later: the order of the categories decides, not the position.
\<close>

theorem classifyError_first_match_witness:
  "occurs_in ''QUOTA_EXCEEDED'' ''NOT_FOUND after QUOTA_EXCEEDED'' \<and>
   occurs_in ''NOT_FOUND'' ''NOT_FOUND after QUOTA_EXCEEDED'' \<and>
   \<not> occurs_in ''API_KEY'' ''NOT_FOUND after QUOTA_EXCEEDED'' \<and>
   \<not> occurs_in ''UNAUTHENTICATED'' ''NOT_FOUND after QUOTA_EXCEEDED'' \<and>
   classifyError (Error ''NOT_FOUND after QUOTA_EXCEEDED'')
     = ''API quota exceeded. Please try again later or upgrade your plan''"
proof -
  have h: "occurs_in ''QUOTA_EXCEEDED'' ''NOT_FOUND after QUOTA_EXCEEDED'' \<and>
      occurs_in ''NOT_FOUND'' ''NOT_FOUND after QUOTA_EXCEEDED'' \<and>
      \<not> occurs_in ''API_KEY'' ''NOT_FOUND after QUOTA_EXCEEDED'' \<and>
      \<not> occurs_in ''UNAUTHENTICATED'' ''NOT_FOUND after QUOTA_EXCEEDED''"
    by (simp add: js_includes_occurs [symmetric])
  then show ?thesis
    using classifyError_first_match [of "''NOT_FOUND after QUOTA_EXCEEDED''"] by blast
qed

section \<open>The queue consumer settles every message\<close>

lemma queue_Cons:
  "queue ((jobId, r) # batch) w =
     ((case fst (processVideoAnalysis r jobId w) of Inl x \<Rightarrow> Retry | Inr u \<Rightarrow> Ack)
        # fst (queue batch (snd (processVideoAnalysis r jobId w))),
      snd (queue batch (snd (processVideoAnalysis r jobId w))))"
  by (cases "processVideoAnalysis r jobId w") (auto split: sum.splits prod.splits)

lemma length_queue: "length (fst (queue batch w)) = length batch"
proof (induction batch arbitrary: w)
  case Nil
  then show ?case by simp
next
  case (Cons m batch)
  obtain jobId r where "m = (jobId, r)" by (cases m)
  then show ?case using Cons by (simp add: queue_Cons del: queue.simps(2))
qed

lemma queue_nth:
  "i < length batch \<Longrightarrow>
   fst (queue batch w) ! i =
     (case fst (processVideoAnalysis (snd (batch ! i)) (fst (batch ! i))
                  (snd (queue (take i batch) w))) of
        Inl x \<Rightarrow> Retry | Inr u \<Rightarrow> Ack)"
proof (induction batch arbitrary: w i)
  case Nil
  then show ?case by simp
next
  case (Cons m batch)
  obtain jobId r where m: "m = (jobId, r)" by (cases m)
  show ?case
  proof (cases i)
    case 0
    then show ?thesis using m by (simp add: queue_Cons del: queue.simps(2))
  next
    case (Suc k)
    then have "k < length batch" using Cons.prems by simp
    then show ?thesis using Cons.IH [of k] Suc m by (simp add: queue_Cons del: queue.simps(2))
  qed
qed

lemma queue_single:
  "fst (queue [(jobId, r)] w) =
     [case fst (processVideoAnalysis r jobId w) of Inl x \<Rightarrow> Retry | Inr u \<Rightarrow> Ack]"
  by (cases "processVideoAnalysis r jobId w") (auto split: sum.splits)

text \<open>
  Claim C4. Every message of a batch is settled, in order and on its own: it is
  acknowledged when the processor returns for it (a job that ends \<^verbatim>\<open>failed\<close> included), and
  a retry is requested when the processor raises; whatever happened to the messages before
  it, the processor is run for it on the store they left.
\<close>

theorem queue_settles_each:
  "length (fst (queue batch w)) = length batch \<and>
   (\<forall>i < length batch.
      fst (queue batch w) ! i =
        (case fst (processVideoAnalysis (snd (batch ! i)) (fst (batch ! i))
                     (snd (queue (take i batch) w))) of
           Inl x \<Rightarrow> Retry | Inr u \<Rightarrow> Ack))"
  using length_queue queue_nth by blast

section \<open>One call of the processor\<close>

lemmas proc_defs = processVideoAnalysis_def try_block_def mark_processing_def analyse_def
  catch_block_def update_where_def

lemma processingTime_Some: "processingTime now (Some s) = to_driver now - s"
  by (simp add: processingTime_def to_driver_def from_driver_def)

lemma processingTime_None: "processingTime now None = 0"
  by (simp add: processingTime_def)

text \<open>
  Claim C1, as the code has it. The first update sets \<^verbatim>\<open>processing\<close> whatever the stored
  status is; there is no conditional update. When that update and the read that follows
  succeed and the row exists, the row reads \<^verbatim>\<open>processing\<close> and the provider is called once
  in this delivery; otherwise it is not called. So two deliveries of one job id, with a
  store that works, call the provider twice.
\<close>

theorem analysis_once_per_delivery:
  assumes "processVideoAnalysis r jobId w = (out, w')"
  shows "(update_processing_raises r = None \<and> select_raises r = None \<and> jobs w jobId = Some j \<longrightarrow>
            (\<exists>w1 j1. mark_processing r jobId w = Inr w1 \<and> jobs w1 jobId = Some j1 \<and>
               status j1 = processing \<and> started_at j1 = Some (to_driver (now_start r)) \<and>
               provider_calls w' = provider_calls w @ [request_of j1])) \<and>
         (update_processing_raises r \<noteq> None \<or> select_raises r \<noteq> None \<or> jobs w jobId = None \<longrightarrow>
            provider_calls w' = provider_calls w) \<and>
         (store_ok r \<and> store_ok r2 \<and> jobs w jobId = Some j \<longrightarrow>
            provider_calls (snd (queue [(jobId, r), (jobId, r2)] w))
              = provider_calls w @ [request_of j, request_of j])"
proof -
  have a: "update_processing_raises r = None \<and> select_raises r = None \<and> jobs w jobId = Some j \<longrightarrow>
            (\<exists>w1 j1. mark_processing r jobId w = Inr w1 \<and> jobs w1 jobId = Some j1 \<and>
               status j1 = processing \<and> started_at j1 = Some (to_driver (now_start r)) \<and>
               provider_calls w' = provider_calls w @ [request_of j1])"
    using assms by (auto simp: proc_defs Let_def split: option.splits if_splits)
  have b: "update_processing_raises r \<noteq> None \<or> select_raises r \<noteq> None \<or> jobs w jobId = None \<longrightarrow>
            provider_calls w' = provider_calls w"
    using assms by (auto simp: proc_defs Let_def split: option.splits if_splits)
  have c: "store_ok r \<and> store_ok r2 \<and> jobs w jobId = Some j \<longrightarrow>
            provider_calls (snd (queue [(jobId, r), (jobId, r2)] w))
              = provider_calls w @ [request_of j, request_of j]"
    by (auto simp: store_ok_def proc_defs request_of_def Let_def split: option.splits if_splits)
  show ?thesis using a b c by blast
qed

text \<open>
  Claim C2, as the code has it. One call of the processor leaves the row of an existing
  job either untouched or out of \<^verbatim>\<open>pending\<close>, and a row that was \<^verbatim>\<open>pending\<close> or \<^verbatim>\<open>processing\<close>
  does not move backward in the order. \<^verbatim>\<open>started_at\<close> is written by the first update of every
  call (not only of the first one), is left alone by the terminal updates, and is never
  cleared. No other row changes. Nothing protects a terminal row from a later delivery.
\<close>

theorem status_within_one_call:
  assumes "jobs w jobId = Some j" and "processVideoAnalysis r jobId w = (out, w')"
  shows "\<exists>j'. jobs w' jobId = Some j' \<and>
           (status j' = pending \<longrightarrow> j' = j) \<and>
           (\<not> terminal (status j) \<longrightarrow> rank (status j) \<le> rank (status j')) \<and>
           (update_processing_raises r = None \<longrightarrow> status j' \<noteq> pending \<and> started_at j' = Some (to_driver (now_start r))) \<and>
           (update_processing_raises r \<noteq> None \<longrightarrow> started_at j' = started_at j) \<and>
           (started_at j \<noteq> None \<longrightarrow> started_at j' \<noteq> None) \<and>
           (\<forall>k. k \<noteq> jobId \<longrightarrow> jobs w' k = jobs w k)"
  using assms
  by (cases "status j") (auto simp: proc_defs Let_def terminal_def split: option.splits if_splits)


text \<open>
  Claim C7, as the code has it. When the provider's stream ends without raising and the
  accumulated text is empty or white space only, the job is never set to \<^verbatim>\<open>completed\<close> and
  no result is stored. With the \<^verbatim>\<open>catch\<close> block's two store operations succeeding, the
  processor returns and the job is \<^verbatim>\<open>failed\<close> with the message that the video may be
  private, age-restricted or unavailable; when one of them raises, the processor raises,
  the job stays \<^verbatim>\<open>processing\<close> with its error column untouched, and a retry is requested.
\<close>

theorem blank_result_fails:
  assumes "update_processing_raises r = None" and "select_raises r = None"
    and "jobs w jobId = Some j"
    and "stream_raises r = None" and "list_all is_space (accumulate (stream_chunks r))"
    and "processVideoAnalysis r jobId w = (out, w')"
  shows "\<exists>j'. jobs w' jobId = Some j' \<and> status j' \<noteq> completed \<and> result j' = result j \<and>
           provider_calls w' = provider_calls w @ [request_of j] \<and>
           (catch_select_raises r = None \<and> update_failed_raises r = None \<longrightarrow>
              out = Inr () \<and> status j' = failed \<and> error j' = Some no_analysis_message) \<and>
           (catch_select_raises r \<noteq> None \<or> update_failed_raises r \<noteq> None \<longrightarrow>
              (\<exists>y. out = Inl y) \<and> status j' = processing \<and> error j' = error j \<and>
              fst (queue [(jobId, r)] w) = [Retry])"
proof -
  have "classifyError (Error no_analysis_message) = no_analysis_message"
    by (simp add: classifyError_def no_analysis_message_def)
  moreover have "blank (accumulate (stream_chunks r))"
    using assms(5) by (simp add: blank_iff)
  ultimately show ?thesis
    using assms(1-4,6)
    by (auto simp: proc_defs request_of_def Let_def split: option.splits if_splits)
qed

section \<open>Overlapping deliveries and the times a terminal row records\<close>

text \<open>
  The call that nothing interrupts is the five steps in a row, and a \<open>Deliver\<close> event
  leaves the store that an \<open>Arrive\<close> followed at once by its five \<open>Advance\<close> leaves.
\<close>

lemma five_steps_alone:
  "five_steps r jobId w =
     (outcome (fst (processVideoAnalysis r jobId w)), snd (processVideoAnalysis r jobId w))"
  by (auto simp: five_steps_def outcome_def proc_defs Let_def split: option.splits)

lemma history_snoc: "history (evs @ [e]) = apply_event (history evs) e"
  by (simp add: history_def)

lemma deliver_in_steps:
  "fst (foldl apply_event (w, fs)
          [Arrive jobId r, Advance (length fs), Advance (length fs), Advance (length fs),
           Advance (length fs), Advance (length fs)])
     = fst (apply_event (w, fs) (Deliver jobId r))"
proof -
  obtain s1 w1 where 1: "step r jobId Begun w = (s1, w1)" by force
  obtain s2 w2 where 2: "step r jobId s1 w1 = (s2, w2)" by force
  obtain s3 w3 where 3: "step r jobId s2 w2 = (s3, w3)" by force
  obtain s4 w4 where 4: "step r jobId s3 w3 = (s4, w4)" by force
  obtain s5 w5 where 5: "step r jobId s4 w4 = (s5, w5)" by force
  have "five_steps r jobId w = (s5, w5)" using 1 2 3 4 5 by (simp add: five_steps_def)
  then have "w5 = snd (processVideoAnalysis r jobId w)" by (simp add: five_steps_alone)
  then show ?thesis using 1 2 3 4 5 by simp
qed

text \<open>
  In a history in which no two deliveries overlap, every terminal row records the
  difference of its two time columns.
\<close>

lemma all_timed_update:
  assumes "all_timed w" and "\<And>j. jobs w jobId = Some j \<Longrightarrow> timed (f j)"
  shows "all_timed (update_where jobId f w)"
  using assms by (auto simp: all_timed_def update_where_def split: option.splits)

lemma all_timed_calls: "all_timed (w\<lparr>provider_calls := c\<rparr>) = all_timed w"
  by (simp add: all_timed_def)

lemma all_timed_mark:
  "all_timed w \<Longrightarrow> mark_processing r jobId w = Inr w1 \<Longrightarrow> all_timed w1"
  by (auto simp: mark_processing_def timed_def terminal_def split: option.splits
      intro!: all_timed_update)

lemma all_timed_analyse:
  assumes "all_timed w"
  shows "all_timed (snd (analyse r jobId w))"
proof -
  have "timed (j\<lparr>status := completed, result := Some t,
            completed_at := Some (to_driver now),
            processing_time := Some (processingTime now (started_at j))\<rparr>)" for j t now
    by (cases "started_at j") (simp_all add: timed_def terminal_def processingTime_Some processingTime_None)
  then show ?thesis
    using assms
    by (auto simp: analyse_def Let_def all_timed_calls split: option.splits
        intro!: all_timed_update)
qed

lemma all_timed_catch:
  assumes "all_timed w"
  shows "all_timed (snd (catch_block r jobId x w))"
proof -
  have "timed (j\<lparr>status := failed, error := Some m,
            processing_time := Some (processingTime now (started_at j)),
            completed_at := Some (to_driver now)\<rparr>)" for j m now
    by (cases "started_at j") (simp_all add: timed_def terminal_def processingTime_Some processingTime_None)
  then show ?thesis
    using assms
    by (auto simp: catch_block_def Let_def split: option.splits intro!: all_timed_update)
qed

lemma all_timed_process:
  assumes "all_timed w"
  shows "all_timed (snd (processVideoAnalysis r jobId w))"
proof (cases "mark_processing r jobId w")
  case (Inl x)
  then show ?thesis using all_timed_catch [OF assms]
    by (simp add: processVideoAnalysis_def try_block_def)
next
  case (Inr w1)
  then have w1: "all_timed w1" using assms all_timed_mark by blast
  obtain res w2 where a: "analyse r jobId w1 = (res, w2)" by force
  then have w2: "all_timed w2" using all_timed_analyse [OF w1, of r jobId] by simp
  show ?thesis
  proof (cases res)
    case (Inl x)
    then show ?thesis using Inr a all_timed_catch [OF w2]
      by (simp add: processVideoAnalysis_def try_block_def)
  next
    case (Inr u)
    then show ?thesis using \<open>mark_processing r jobId w = Inr w1\<close> a w2
      by (simp add: processVideoAnalysis_def try_block_def)
  qed
qed

lemma all_timed_submit:
  assumes "all_timed w"
  shows "all_timed (create_job newId now video_url q mdl force duration w)"
  using assms
  by (auto simp: all_timed_def create_job_def new_job_def Let_def timed_def terminal_def)

lemma all_timed_replay: "list_all alone evs \<Longrightarrow> all_timed (replay evs)"
proof (induction evs rule: rev_induct)
  case Nil
  then show ?case by (simp add: replay_def history_def empty_world_def all_timed_def)
next
  case (snoc e evs)
  then have ih: "all_timed (fst (history evs))" by (simp add: replay_def)
  obtain w fs where h: "history evs = (w, fs)" by force
  show ?case
    using snoc.prems ih h
    by (cases e) (simp_all add: replay_def history_snoc all_timed_submit all_timed_process)
qed

text \<open>
  In every history, with deliveries overlapping at will, every terminal row records a
  completion time and a processing time.
\<close>

lemma all_recorded_update:
  assumes "all_recorded w" and "\<And>j. jobs w jobId = Some j \<Longrightarrow> recorded (f j)"
  shows "all_recorded (update_where jobId f w)"
  using assms by (auto simp: all_recorded_def update_where_def split: option.splits)

lemma all_recorded_calls: "all_recorded (w\<lparr>provider_calls := c\<rparr>) = all_recorded w"
  by (simp add: all_recorded_def)

lemma all_recorded_step:
  assumes "all_recorded w"
  shows "all_recorded (snd (step r jobId st w))"
  using assms
  by (cases st)
    (auto simp: mark_processing_def Let_def all_recorded_calls recorded_def terminal_def
      split: option.splits intro!: all_recorded_update)

lemma all_recorded_process:
  assumes "all_recorded w"
  shows "all_recorded (snd (processVideoAnalysis r jobId w))"
proof -
  obtain s1 w1 where 1: "step r jobId Begun w = (s1, w1)" by force
  obtain s2 w2 where 2: "step r jobId s1 w1 = (s2, w2)" by force
  obtain s3 w3 where 3: "step r jobId s2 w2 = (s3, w3)" by force
  obtain s4 w4 where 4: "step r jobId s3 w3 = (s4, w4)" by force
  have "all_recorded w1" using all_recorded_step [OF assms, of r jobId Begun] 1 by simp
  then have "all_recorded w2" using all_recorded_step [of w1 r jobId s1] 2 by simp
  then have "all_recorded w3" using all_recorded_step [of w2 r jobId s2] 3 by simp
  then have "all_recorded w4" using all_recorded_step [of w3 r jobId s3] 4 by simp
  then have "all_recorded (snd (step r jobId s4 w4))" by (rule all_recorded_step)
  moreover have "five_steps r jobId w = step r jobId s4 w4"
    using 1 2 3 4 by (simp add: five_steps_def)
  then have "snd (step r jobId s4 w4) = snd (processVideoAnalysis r jobId w)"
    using five_steps_alone [of r jobId w] by (metis snd_conv)
  ultimately show ?thesis by simp
qed

lemma all_recorded_submit:
  assumes "all_recorded w"
  shows "all_recorded (create_job newId now video_url q mdl force duration w)"
  using assms
  by (auto simp: all_recorded_def create_job_def new_job_def Let_def recorded_def terminal_def)

lemma all_recorded_replay: "all_recorded (replay evs)"
proof (induction evs rule: rev_induct)
  case Nil
  then show ?case by (simp add: replay_def history_def empty_world_def all_recorded_def)
next
  case (snoc e evs)
  then have ih: "all_recorded (fst (history evs))" by (simp add: replay_def)
  obtain w fs where h: "history evs = (w, fs)" by force
  show ?case
  proof (cases e)
    case (Advance n)
    show ?thesis
    proof (cases "n < length fs")
      case True
      obtain jobId r st where f: "fs ! n = (jobId, r, st)" by (cases "fs ! n")
      have "all_recorded (snd (step r jobId st w))" using ih h all_recorded_step by simp
      then show ?thesis using Advance True f h
        by (cases "step r jobId st w") (simp add: replay_def history_snoc)
    next
      case False
      then show ?thesis using Advance ih h by (simp add: replay_def history_snoc)
    qed
  qed (use ih h in \<open>simp_all add: replay_def history_snoc all_recorded_submit all_recorded_process\<close>)
qed

lemma completed_write:
  assumes "update_processing_raises r = None" "select_raises r = None" "stream_raises r = None"
    "update_completed_raises r = None" "jobs w jobId = Some j"
    "\<not> blank (accumulate (stream_chunks r))"
  shows "fst (processVideoAnalysis r jobId w) = Inr ()"
    and "jobs (snd (processVideoAnalysis r jobId w)) jobId =
           Some (j\<lparr>status := completed, started_at := Some (to_driver (now_start r)),
                   result := Some (accumulate (stream_chunks r)),
                   completed_at := Some (to_driver (now_done r)),
                   processing_time := Some (to_driver (now_done r) - to_driver (now_start r))\<rparr>)"
    and "map (\<lambda>x. map_option (\<lambda>j. (status j, result j, completed_at j)) (jobs x jobId))
             (observed r jobId w) =
           [Some (status j, result j, completed_at j),
            Some (processing, result j, completed_at j),
            Some (completed, Some (accumulate (stream_chunks r)), Some (to_driver (now_done r)))]"
  using assms
  by (simp_all add: observed_def proc_defs Let_def processingTime_Some)

lemma step_completed_write:
  assumes "step r jobId (Streaming job) w = (Returned, w')" "jobs w jobId = Some j0"
  shows "jobs w' jobId =
           Some (j0\<lparr>status := completed, result := Some (accumulate (stream_chunks r)),
                    completed_at := Some (to_driver (now_done r)),
                    processing_time :=
                      Some (case started_at job of
                              None \<Rightarrow> 0
                            | Some s \<Rightarrow> to_driver (now_done r) - s)\<rparr>)"
  using assms
  by (cases "started_at job")
    (auto simp: update_where_def Let_def processingTime_Some processingTime_None
      split: option.splits if_splits)

lemma step_failed_write:
  assumes "step r jobId (Reread x read) w = (Returned, w')" "jobs w jobId = Some j0"
  shows "jobs w' jobId =
           Some (j0\<lparr>status := failed, error := Some (classifyError x),
                    processing_time :=
                      Some (case read of
                              None \<Rightarrow> 0
                            | Some job \<Rightarrow>
                                (case started_at job of
                                   None \<Rightarrow> 0
                                 | Some s \<Rightarrow> to_driver (now_catch r) - s)),
                    completed_at := Some (to_driver (now_catch r))\<rparr>)"
  using assms
  by (auto simp: update_where_def Let_def processingTime_Some processingTime_None
      split: option.splits if_splits)

lemma alone_times:
  assumes "jobs w jobId = Some j0" "fst (processVideoAnalysis r jobId w) = Inr u"
  shows "\<exists>j' c p. jobs (snd (processVideoAnalysis r jobId w)) jobId = Some j' \<and>
           terminal (status j') \<and> completed_at j' = Some c \<and> processing_time j' = Some p \<and>
           (\<forall>s. started_at j' = Some s \<longrightarrow> p = c - s) \<and> (started_at j' = None \<longrightarrow> p = 0)"
  using assms
  by (cases "started_at j0")
    (auto simp: proc_defs Let_def terminal_def processingTime_Some processingTime_None
      split: option.splits if_splits)

text \<open>
  Claim C8, as the code has it. In every history, deliveries overlapping at will, a
  terminal row records a completion time and a processing time. The terminal write of a
  call stores as completion time the whole seconds of the clock, and as processing time
  those seconds minus the \<^verbatim>\<open>started_at\<close> (whole seconds) that this call read back from the
  store, or 0 when it read none: the difference of two floors, not the floor of the time
  that passed. For a call that no other delivery overlaps, and in every history without
  overlap, that is the row's completion time minus the row's start time. When the
  stream yields text that is not empty and not white space only and no store operation
  of the \<^verbatim>\<open>try\<close> block raises, the processor returns and one update, the last of the
  call, sets \<^verbatim>\<open>completed\<close>, the result and the completion time together.
\<close>

theorem processing_time_recorded:
  "(jobs (replay evs) k = Some j \<and> terminal (status j) \<longrightarrow>
      (\<exists>c p. completed_at j = Some c \<and> processing_time j = Some p \<and>
         (list_all alone evs \<longrightarrow>
            (\<forall>s. started_at j = Some s \<longrightarrow> p = c - s) \<and> (started_at j = None \<longrightarrow> p = 0)))) \<and>
   (step r jobId (Streaming job) w = (Returned, w') \<and> jobs w jobId = Some j0 \<longrightarrow>
      jobs w' jobId =
        Some (j0\<lparr>status := completed, result := Some (accumulate (stream_chunks r)),
                 completed_at := Some (to_driver (now_done r)),
                 processing_time :=
                   Some (case started_at job of
                           None \<Rightarrow> 0
                         | Some s \<Rightarrow> to_driver (now_done r) - s)\<rparr>)) \<and>
   (step r jobId (Reread x read) w = (Returned, w') \<and> jobs w jobId = Some j0 \<longrightarrow>
      jobs w' jobId =
        Some (j0\<lparr>status := failed, error := Some (classifyError x),
                 processing_time :=
                   Some (case read of
                           None \<Rightarrow> 0
                         | Some job \<Rightarrow>
                             (case started_at job of
                                None \<Rightarrow> 0
                              | Some s \<Rightarrow> to_driver (now_catch r) - s)),
                 completed_at := Some (to_driver (now_catch r))\<rparr>)) \<and>
   five_steps r jobId w =
     (outcome (fst (processVideoAnalysis r jobId w)), snd (processVideoAnalysis r jobId w)) \<and>
   (jobs w jobId = Some j0 \<and> fst (processVideoAnalysis r jobId w) = Inr u \<longrightarrow>
      (\<exists>j' c p. jobs (snd (processVideoAnalysis r jobId w)) jobId = Some j' \<and>
         terminal (status j') \<and> completed_at j' = Some c \<and> processing_time j' = Some p \<and>
         (\<forall>s. started_at j' = Some s \<longrightarrow> p = c - s) \<and> (started_at j' = None \<longrightarrow> p = 0))) \<and>
   (update_processing_raises r = None \<and> select_raises r = None \<and> stream_raises r = None \<and>
    update_completed_raises r = None \<and> jobs w jobId = Some j0 \<and>
    \<not> list_all is_space (accumulate (stream_chunks r)) \<longrightarrow>
      fst (processVideoAnalysis r jobId w) = Inr () \<and>
      jobs (snd (processVideoAnalysis r jobId w)) jobId =
        Some (j0\<lparr>status := completed, started_at := Some (to_driver (now_start r)),
                 result := Some (accumulate (stream_chunks r)),
                 completed_at := Some (to_driver (now_done r)),
                 processing_time := Some (to_driver (now_done r) - to_driver (now_start r))\<rparr>) \<and>
      map (\<lambda>x. map_option (\<lambda>j. (status j, result j, completed_at j)) (jobs x jobId))
          (observed r jobId w) =
        [Some (status j0, result j0, completed_at j0),
         Some (processing, result j0, completed_at j0),
         Some (completed, Some (accumulate (stream_chunks r)), Some (to_driver (now_done r)))])"
proof -
  have a: "jobs (replay evs) k = Some j \<and> terminal (status j) \<longrightarrow>
      (\<exists>c p. completed_at j = Some c \<and> processing_time j = Some p \<and>
         (list_all alone evs \<longrightarrow>
            (\<forall>s. started_at j = Some s \<longrightarrow> p = c - s) \<and> (started_at j = None \<longrightarrow> p = 0)))"
  proof (intro impI)
    assume h: "jobs (replay evs) k = Some j \<and> terminal (status j)"
    have "all_recorded (replay evs)" by (rule all_recorded_replay)
    then have "recorded j" unfolding all_recorded_def using h by blast
    then have "completed_at j \<noteq> None \<and> processing_time j \<noteq> None"
      unfolding recorded_def using h by simp
    then obtain c p where cp: "completed_at j = Some c" "processing_time j = Some p"
      by blast
    have rest: "list_all alone evs \<longrightarrow>
        (\<forall>s. started_at j = Some s \<longrightarrow> p = c - s) \<and> (started_at j = None \<longrightarrow> p = 0)"
    proof (rule impI)
      assume "list_all alone evs"
      then have "all_timed (replay evs)" by (rule all_timed_replay)
      then have "timed j" unfolding all_timed_def using h by blast
      then have "p = (case started_at j of None \<Rightarrow> 0 | Some s \<Rightarrow> c - s)"
        unfolding timed_def using h cp by simp
      then show "(\<forall>s. started_at j = Some s \<longrightarrow> p = c - s) \<and> (started_at j = None \<longrightarrow> p = 0)"
        by (cases "started_at j") simp_all
    qed
    have "completed_at j = Some c \<and> processing_time j = Some p \<and>
         (list_all alone evs \<longrightarrow>
            (\<forall>s. started_at j = Some s \<longrightarrow> p = c - s) \<and> (started_at j = None \<longrightarrow> p = 0))"
      using cp rest by (intro conjI)
    then show "\<exists>c p. completed_at j = Some c \<and> processing_time j = Some p \<and>
         (list_all alone evs \<longrightarrow>
            (\<forall>s. started_at j = Some s \<longrightarrow> p = c - s) \<and> (started_at j = None \<longrightarrow> p = 0))"
      by (intro exI)
  qed
  have b: "step r jobId (Streaming job) w = (Returned, w') \<and> jobs w jobId = Some j0 \<longrightarrow>
      jobs w' jobId =
        Some (j0\<lparr>status := completed, result := Some (accumulate (stream_chunks r)),
                 completed_at := Some (to_driver (now_done r)),
                 processing_time :=
                   Some (case started_at job of
                           None \<Rightarrow> 0
                         | Some s \<Rightarrow> to_driver (now_done r) - s)\<rparr>)"
    using step_completed_write [of r jobId job w w' j0] by blast
  have c: "step r jobId (Reread x read) w = (Returned, w') \<and> jobs w jobId = Some j0 \<longrightarrow>
      jobs w' jobId =
        Some (j0\<lparr>status := failed, error := Some (classifyError x),
                 processing_time :=
                   Some (case read of
                           None \<Rightarrow> 0
                         | Some job \<Rightarrow>
                             (case started_at job of
                                None \<Rightarrow> 0
                              | Some s \<Rightarrow> to_driver (now_catch r) - s)),
                 completed_at := Some (to_driver (now_catch r))\<rparr>)"
    using step_failed_write [of r jobId x read w w' j0] by blast
  have d: "jobs w jobId = Some j0 \<and> fst (processVideoAnalysis r jobId w) = Inr u \<longrightarrow>
      (\<exists>j' c p. jobs (snd (processVideoAnalysis r jobId w)) jobId = Some j' \<and>
         terminal (status j') \<and> completed_at j' = Some c \<and> processing_time j' = Some p \<and>
         (\<forall>s. started_at j' = Some s \<longrightarrow> p = c - s) \<and> (started_at j' = None \<longrightarrow> p = 0))"
    using alone_times [of w jobId j0 r u] by blast
  have e: "update_processing_raises r = None \<and> select_raises r = None \<and> stream_raises r = None \<and>
    update_completed_raises r = None \<and> jobs w jobId = Some j0 \<and>
    \<not> list_all is_space (accumulate (stream_chunks r)) \<longrightarrow>
      fst (processVideoAnalysis r jobId w) = Inr () \<and>
      jobs (snd (processVideoAnalysis r jobId w)) jobId =
        Some (j0\<lparr>status := completed, started_at := Some (to_driver (now_start r)),
                 result := Some (accumulate (stream_chunks r)),
                 completed_at := Some (to_driver (now_done r)),
                 processing_time := Some (to_driver (now_done r) - to_driver (now_start r))\<rparr>) \<and>
      map (\<lambda>x. map_option (\<lambda>j. (status j, result j, completed_at j)) (jobs x jobId))
          (observed r jobId w) =
        [Some (status j0, result j0, completed_at j0),
         Some (processing, result j0, completed_at j0),
         Some (completed, Some (accumulate (stream_chunks r)), Some (to_driver (now_done r)))]"
    using completed_write [of r w jobId j0] by (intro impI conjI) (elim conjE, simp add: blank_iff)+
  show ?thesis using a b c five_steps_alone [of r jobId w] d e by (intro conjI)
qed

section \<open>What is caught and what is raised\<close>

lemma try_block_raises:
  "(update_processing_raises r = Some x \<longrightarrow> fst (try_block r jobId w) = Inl x) \<and>
   (update_processing_raises r = None \<and> select_raises r = Some x \<longrightarrow>
      fst (try_block r jobId w) = Inl x) \<and>
   (update_processing_raises r = None \<and> select_raises r = None \<and> jobs w jobId = None \<longrightarrow>
      fst (try_block r jobId w) = Inl (Error ''Job not found'')) \<and>
   (update_processing_raises r = None \<and> select_raises r = None \<and> jobs w jobId \<noteq> None \<and>
    stream_raises r = Some x \<longrightarrow> fst (try_block r jobId w) = Inl x) \<and>
   (update_processing_raises r = None \<and> select_raises r = None \<and> jobs w jobId \<noteq> None \<and>
    stream_raises r = None \<and> blank (accumulate (stream_chunks r)) \<longrightarrow>
      fst (try_block r jobId w) = Inl (Error no_analysis_message)) \<and>
   (update_processing_raises r = None \<and> select_raises r = None \<and> jobs w jobId \<noteq> None \<and>
    stream_raises r = None \<and> \<not> blank (accumulate (stream_chunks r)) \<and>
    update_completed_raises r = Some x \<longrightarrow> fst (try_block r jobId w) = Inl x)"
  by (auto simp: try_block_def mark_processing_def analyse_def update_where_def Let_def
      split: option.splits)

lemma try_block_error_kept:
  "map_option error (jobs (snd (try_block r jobId w)) jobId) = map_option error (jobs w jobId)
   \<or> (\<exists>u. fst (try_block r jobId w) = Inr u)"
  by (auto simp: try_block_def mark_processing_def analyse_def update_where_def Let_def
      split: option.splits)

lemma try_block_keeps_dom:
  "(jobs (snd (try_block r jobId w)) jobId = None) = (jobs w jobId = None)"
  by (auto simp: try_block_def mark_processing_def analyse_def update_where_def Let_def
      split: option.splits)

lemma process_raises_iff:
  "(\<exists>y. fst (processVideoAnalysis r jobId w) = Inl y) \<longleftrightarrow>
     (\<exists>x. fst (try_block r jobId w) = Inl x) \<and>
     (catch_select_raises r \<noteq> None \<or> update_failed_raises r \<noteq> None)"
  by (cases "try_block r jobId w")
    (auto simp: processVideoAnalysis_def catch_block_def Let_def split: sum.splits option.splits)

lemma process_raises_error_kept:
  assumes "fst (processVideoAnalysis r jobId w) = Inl y"
  shows "map_option error (jobs (snd (processVideoAnalysis r jobId w)) jobId)
           = map_option error (jobs w jobId)"
proof -
  obtain res w1 where t: "try_block r jobId w = (res, w1)" by force
  show ?thesis
  proof (cases res)
    case (Inl x)
    then have "snd (processVideoAnalysis r jobId w) = w1"
      using assms t
      by (auto simp: processVideoAnalysis_def catch_block_def Let_def split: option.splits)
    then show ?thesis using try_block_error_kept [of r jobId w] t Inl by simp
  next
    case (Inr u)
    then show ?thesis using assms t by (simp add: processVideoAnalysis_def)
  qed
qed

lemma caught_is_recorded:
  assumes "fst (try_block r jobId w) = Inl x" "catch_select_raises r = None"
    "update_failed_raises r = None"
  shows "fst (processVideoAnalysis r jobId w) = Inr ()"
    and "jobs w jobId \<noteq> None \<Longrightarrow>
         map_option status (jobs (snd (processVideoAnalysis r jobId w)) jobId) = Some failed \<and>
         map_option error (jobs (snd (processVideoAnalysis r jobId w)) jobId)
           = Some (Some (classifyError x))"
proof -
  obtain res w1 where t: "try_block r jobId w = (res, w1)" by force
  then have res: "res = Inl x" using assms(1) by simp
  show "fst (processVideoAnalysis r jobId w) = Inr ()"
    using t res assms(2,3) by (simp add: processVideoAnalysis_def catch_block_def Let_def)
  assume "jobs w jobId \<noteq> None"
  then have "jobs w1 jobId \<noteq> None" using try_block_keeps_dom [of r jobId w] t by simp
  then show "map_option status (jobs (snd (processVideoAnalysis r jobId w)) jobId) = Some failed \<and>
         map_option error (jobs (snd (processVideoAnalysis r jobId w)) jobId)
           = Some (Some (classifyError x))"
    using t res assms(2,3)
    by (auto simp: processVideoAnalysis_def catch_block_def update_where_def Let_def)
qed

text \<open>
  Claim C9, as the code has it. The processor raises exactly when something was raised
  in the \<^verbatim>\<open>try\<close> block and then the \<^verbatim>\<open>catch\<close> block's own read or write raises; then the
  error column is left as it was and the consumer requests a retry. Everything else that
  is raised in the \<^verbatim>\<open>try\<close> block is caught, classified and, the \<^verbatim>\<open>catch\<close> block's operations
  succeeding, written to an existing row as \<^verbatim>\<open>failed\<close>, and the message is acknowledged:
  that holds alike for a fault of the store at the first update, at the read or at the
  write of the result, for a missing row, for a failure of the provider and for a blank
  result.
\<close>

theorem caught_faults_are_recorded:
  assumes "processVideoAnalysis r jobId w = (out, w')"
  shows "((\<exists>y. out = Inl y) \<longleftrightarrow>
            (\<exists>x. fst (try_block r jobId w) = Inl x) \<and>
            (catch_select_raises r \<noteq> None \<or> update_failed_raises r \<noteq> None)) \<and>
         ((\<exists>y. out = Inl y) \<longrightarrow>
            fst (queue [(jobId, r)] w) = [Retry] \<and>
            map_option error (jobs w' jobId) = map_option error (jobs w jobId)) \<and>
         (fst (try_block r jobId w) = Inl x \<and> catch_select_raises r = None \<and>
          update_failed_raises r = None \<longrightarrow>
            out = Inr () \<and> fst (queue [(jobId, r)] w) = [Ack] \<and>
            (jobs w jobId \<noteq> None \<longrightarrow>
               map_option status (jobs w' jobId) = Some failed \<and>
               map_option error (jobs w' jobId) = Some (Some (classifyError x)))) \<and>
         (update_processing_raises r = Some x \<longrightarrow> fst (try_block r jobId w) = Inl x) \<and>
         (update_processing_raises r = None \<and> select_raises r = Some x \<longrightarrow>
            fst (try_block r jobId w) = Inl x) \<and>
         (update_processing_raises r = None \<and> select_raises r = None \<and> jobs w jobId = None \<longrightarrow>
            fst (try_block r jobId w) = Inl (Error ''Job not found'')) \<and>
         (update_processing_raises r = None \<and> select_raises r = None \<and> jobs w jobId \<noteq> None \<and>
          stream_raises r = Some x \<longrightarrow> fst (try_block r jobId w) = Inl x) \<and>
         (update_processing_raises r = None \<and> select_raises r = None \<and> jobs w jobId \<noteq> None \<and>
          stream_raises r = None \<and> blank (accumulate (stream_chunks r)) \<longrightarrow>
            fst (try_block r jobId w) = Inl (Error no_analysis_message)) \<and>
         (update_processing_raises r = None \<and> select_raises r = None \<and> jobs w jobId \<noteq> None \<and>
          stream_raises r = None \<and> \<not> blank (accumulate (stream_chunks r)) \<and>
          update_completed_raises r = Some x \<longrightarrow> fst (try_block r jobId w) = Inl x)"
proof -
  have o: "fst (processVideoAnalysis r jobId w) = out" "snd (processVideoAnalysis r jobId w) = w'"
    using assms by simp_all
  have a: "(\<exists>y. out = Inl y) \<longleftrightarrow>
            (\<exists>x. fst (try_block r jobId w) = Inl x) \<and>
            (catch_select_raises r \<noteq> None \<or> update_failed_raises r \<noteq> None)"
    using process_raises_iff [of r jobId w] o by simp
  have b: "(\<exists>y. out = Inl y) \<longrightarrow>
            fst (queue [(jobId, r)] w) = [Retry] \<and>
            map_option error (jobs w' jobId) = map_option error (jobs w jobId)"
  proof (intro impI)
    assume "\<exists>y. out = Inl y"
    then obtain y where y: "out = Inl y" by blast
    then have "fst (processVideoAnalysis r jobId w) = Inl y" using assms by simp
    then have "map_option error (jobs (snd (processVideoAnalysis r jobId w)) jobId)
           = map_option error (jobs w jobId)"
      by (rule process_raises_error_kept)
    then show "fst (queue [(jobId, r)] w) = [Retry] \<and>
            map_option error (jobs w' jobId) = map_option error (jobs w jobId)"
      using assms y by (simp add: queue_single)
  qed
  have c: "fst (try_block r jobId w) = Inl x \<and> catch_select_raises r = None \<and>
          update_failed_raises r = None \<longrightarrow>
            out = Inr () \<and> fst (queue [(jobId, r)] w) = [Ack] \<and>
            (jobs w jobId \<noteq> None \<longrightarrow>
               map_option status (jobs w' jobId) = Some failed \<and>
               map_option error (jobs w' jobId) = Some (Some (classifyError x)))"
  proof (intro impI)
    assume h: "fst (try_block r jobId w) = Inl x \<and> catch_select_raises r = None \<and>
          update_failed_raises r = None"
    then have "fst (processVideoAnalysis r jobId w) = Inr ()"
      using caught_is_recorded(1) [of r jobId w x] by simp
    moreover have "jobs w jobId \<noteq> None \<longrightarrow>
         map_option status (jobs (snd (processVideoAnalysis r jobId w)) jobId) = Some failed \<and>
         map_option error (jobs (snd (processVideoAnalysis r jobId w)) jobId)
           = Some (Some (classifyError x))"
      using h caught_is_recorded(2) [of r jobId w x] by blast
    ultimately show "out = Inr () \<and> fst (queue [(jobId, r)] w) = [Ack] \<and>
            (jobs w jobId \<noteq> None \<longrightarrow>
               map_option status (jobs w' jobId) = Some failed \<and>
               map_option error (jobs w' jobId) = Some (Some (classifyError x)))"
      using assms by (simp add: queue_single)
  qed
  show ?thesis using a b c try_block_raises [of r x jobId w] by (intro conjI) blast+
qed

section \<open>The sample history\<close>

lemmas run_defs = run_ok_def run_blank_def run_quota_def run_quota_store_down_def
  run_write_refused_def run_blank_write_down_def run_slow_def run_short_def submit1_def

lemmas eval_defs = processVideoAnalysis_def try_block_def mark_processing_def analyse_def
  catch_block_def update_where_def
  blank_def trim_def is_space_def processingTime_def classifyError_def
  to_driver_def from_driver_def request_of_def replay_def history_def empty_world_def
  create_job_def new_job_def parseDuration_def match_duration_def unit_group_def is_digit_def
  parseInt_def mathInt_def to_double_def times_double_def plus_double_def or_zero_def
  digit_value_def useLowResolution_def numeral_eq_enat

text \<open>
  The row of \<^verbatim>\<open>job1\<close> after its submission, and after a first delivery that succeeds.
\<close>

lemma job1_submitted:
  "jobs (replay [submit1]) ''job1'' =
     Some (new_job ''https://youtu.be/abc'' ''summarize'' ''gemini-2.5-flash'' False 300 990000)"
  by (simp add: run_defs eval_defs)

lemma job1_completed:
  "jobs (replay [submit1, Deliver ''job1'' run_ok]) ''job1'' =
     Some ((new_job ''https://youtu.be/abc'' ''summarize'' ''gemini-2.5-flash'' False 300 990000)
       \<lparr>status := completed, result := Some ''A cat video.'', processing_time := Some 42,
        started_at := Some 1000, completed_at := Some 1042\<rparr>)"
  by (simp add: run_defs eval_defs)

text \<open>
  Claim C1 as worded fails: a delivery for a job whose stored status is \<^verbatim>\<open>completed\<close>, not
  \<^verbatim>\<open>pending\<close>, calls the provider a second time.
\<close>

theorem second_delivery_analyses_again:
  "map_option status (jobs (replay [submit1, Deliver ''job1'' run_ok]) ''job1'') = Some completed \<and>
   length (provider_calls (replay [submit1, Deliver ''job1'' run_ok])) = 1 \<and>
   fst (queue [(''job1'', run_ok)] (replay [submit1, Deliver ''job1'' run_ok])) = [Ack] \<and>
   length (provider_calls
     (snd (queue [(''job1'', run_ok)] (replay [submit1, Deliver ''job1'' run_ok])))) = 2"
  by (simp add: run_defs eval_defs)

text \<open>
  Claim C1 as the code has it, at two more deliveries for the completed \<^verbatim>\<open>job1\<close>.
\<close>

theorem analysis_once_per_delivery_witness:
  "store_ok run_ok \<and> store_ok run_quota \<and>
   map_option status (jobs (replay [submit1, Deliver ''job1'' run_ok]) ''job1'') = Some completed \<and>
   length (provider_calls (replay [submit1, Deliver ''job1'' run_ok])) = 1 \<and>
   length (provider_calls (snd (queue [(''job1'', run_ok), (''job1'', run_quota)]
     (replay [submit1, Deliver ''job1'' run_ok])))) = 3"
proof -
  let ?w = "replay [submit1, Deliver ''job1'' run_ok]"
  have ok: "store_ok run_ok \<and> store_ok run_quota"
    by (simp add: store_ok_def run_defs)
  have n: "length (provider_calls ?w) = 1"
    by (simp add: run_defs eval_defs)
  have "provider_calls (snd (queue [(''job1'', run_ok), (''job1'', run_quota)] ?w))
      = provider_calls ?w @ [request_of (the (jobs ?w ''job1'')), request_of (the (jobs ?w ''job1''))]"
    using ok job1_completed
      analysis_once_per_delivery [of run_ok "''job1''" ?w
        "fst (processVideoAnalysis run_ok ''job1'' ?w)"
        "snd (processVideoAnalysis run_ok ''job1'' ?w)" "the (jobs ?w ''job1'')" run_quota]
    by simp
  then have "length (provider_calls (snd (queue [(''job1'', run_ok), (''job1'', run_quota)] ?w))) = 3"
    using n by simp
  then show ?thesis using ok n job1_completed by simp
qed

text \<open>
  Claim C2 as worded fails: a delivery for the completed \<^verbatim>\<open>job1\<close> in which the provider
  fails and the store is down when the \<^verbatim>\<open>catch\<close> block reads the job leaves it
  \<^verbatim>\<open>processing\<close> with another \<^verbatim>\<open>started_at\<close>; one in which only the provider fails turns
  \<^verbatim>\<open>completed\<close> into \<^verbatim>\<open>failed\<close>.
\<close>

theorem redelivery_moves_back:
  "map_option (\<lambda>j. (status j, started_at j))
      (jobs (replay [submit1, Deliver ''job1'' run_ok]) ''job1'')
     = Some (completed, Some 1000) \<and>
   map_option (\<lambda>j. (status j, started_at j))
      (jobs (replay [submit1, Deliver ''job1'' run_ok, Deliver ''job1'' run_quota_store_down]) ''job1'')
     = Some (processing, Some 2000) \<and>
   map_option (\<lambda>j. (status j, error j))
      (jobs (replay [submit1, Deliver ''job1'' run_ok, Deliver ''job1'' run_quota]) ''job1'')
     = Some (failed, Some ''API quota exceeded. Please try again later or upgrade your plan'')"
  by (simp add: run_defs eval_defs)

text \<open>
  Claim C2 as the code has it, at the first delivery for \<^verbatim>\<open>job1\<close>.
\<close>

theorem status_within_one_call_witness:
  "map_option status (jobs (replay [submit1]) ''job1'') = Some pending \<and>
   update_processing_raises run_ok = None \<and>
   (\<exists>j'. jobs (snd (processVideoAnalysis run_ok ''job1'' (replay [submit1]))) ''job1'' = Some j' \<and>
      status j' \<noteq> pending \<and> rank pending \<le> rank (status j') \<and> started_at j' = Some 1000)"
proof -
  let ?w = "replay [submit1]"
  let ?j = "new_job ''https://youtu.be/abc'' ''summarize'' ''gemini-2.5-flash'' False 300 990000"
  have u: "update_processing_raises run_ok = None" by (simp add: run_defs)
  have t: "\<not> terminal (status ?j)" by (simp add: new_job_def terminal_def)
  have s: "status ?j = pending" by (simp add: new_job_def)
  have n: "to_driver (now_start run_ok) = 1000" by (simp add: run_defs to_driver_def)
  obtain j' where "jobs (snd (processVideoAnalysis run_ok ''job1'' ?w)) ''job1'' = Some j'"
    and "\<not> terminal (status ?j) \<longrightarrow> rank (status ?j) \<le> rank (status j')"
    and "update_processing_raises run_ok = None \<longrightarrow>
           status j' \<noteq> pending \<and> started_at j' = Some (to_driver (now_start run_ok))"
    using status_within_one_call [OF job1_submitted, of run_ok
        "fst (processVideoAnalysis run_ok ''job1'' ?w)"
        "snd (processVideoAnalysis run_ok ''job1'' ?w)"]
    by auto
  then have "\<exists>j'. jobs (snd (processVideoAnalysis run_ok ''job1'' ?w)) ''job1'' = Some j' \<and>
      status j' \<noteq> pending \<and> rank pending \<le> rank (status j') \<and> started_at j' = Some 1000"
    using u t s n by auto
  then show ?thesis using u s job1_submitted by simp
qed



text \<open>
  Claim C4 at a batch of three: the provider fails (the job ends \<^verbatim>\<open>failed\<close>, acknowledged),
  the store goes down in the \<^verbatim>\<open>catch\<close> block (retry), and the third message is processed
  all the same (acknowledged).
\<close>

theorem queue_settles_each_witness:
  "length [(''job1'', run_quota), (''job1'', run_quota_store_down), (''job1'', run_ok)] = 3 \<and>
   fst (queue [(''job1'', run_quota), (''job1'', run_quota_store_down), (''job1'', run_ok)]
         (replay [submit1])) = [Ack, Retry, Ack] \<and>
   map_option status
     (jobs (snd (queue (take 1 [(''job1'', run_quota), (''job1'', run_quota_store_down),
                                (''job1'', run_ok)]) (replay [submit1]))) ''job1'') = Some failed"
proof -
  let ?b = "[(''job1'', run_quota), (''job1'', run_quota_store_down), (''job1'', run_ok)]"
  let ?w = "replay [submit1]"
  note t = queue_settles_each [of ?b ?w]
  have n: "length (fst (queue ?b ?w)) = 3"
    using t by simp
  have "fst (queue ?b ?w) ! 0 = Ack"
    using t [THEN conjunct2, rule_format, of 0] by (simp add: run_defs eval_defs)
  moreover have "fst (queue ?b ?w) ! 1 = Retry"
    using t [THEN conjunct2, rule_format, of 1] by (simp add: run_defs eval_defs)
  moreover have "fst (queue ?b ?w) ! 2 = Ack"
    using t [THEN conjunct2, rule_format, of 2] by (simp add: run_defs eval_defs)
  ultimately have "fst (queue ?b ?w) = [Ack, Retry, Ack]"
    using n by (auto simp: list_eq_iff_nth_eq less_Suc_eq numeral_3_eq_3 numeral_2_eq_2 simp del: queue.simps)
  moreover have "map_option status (jobs (snd (queue (take 1 ?b) ?w)) ''job1'') = Some failed"
    by (simp add: run_defs eval_defs)
  ultimately show ?thesis by simp
qed

text \<open>
  Claim C7 as worded fails: with a blank answer and the store down at the write of the
  failure, the job is left \<^verbatim>\<open>processing\<close> with no error, and a retry is requested.
\<close>

theorem blank_result_left_processing:
  "update_processing_raises run_blank_write_down = None \<and>
   select_raises run_blank_write_down = None \<and>
   stream_raises run_blank_write_down = None \<and>
   list_all is_space (accumulate (stream_chunks run_blank_write_down)) \<and>
   fst (queue [(''job1'', run_blank_write_down)] (replay [submit1])) = [Retry] \<and>
   map_option (\<lambda>j. (status j, error j))
     (jobs (snd (queue [(''job1'', run_blank_write_down)] (replay [submit1]))) ''job1'')
     = Some (processing, None)"
  by (simp add: run_defs eval_defs)

text \<open>
  Claim C7 as the code has it, at an answer of a space and a line feed, with the store up
  and with the store down at the write of the failure.
\<close>

theorem blank_result_fails_witness:
  "update_processing_raises run_blank = None \<and> select_raises run_blank = None \<and>
   stream_raises run_blank = None \<and> catch_select_raises run_blank = None \<and>
   update_failed_raises run_blank = None \<and>
   list_all is_space (accumulate (stream_chunks run_blank)) \<and>
   fst (processVideoAnalysis run_blank ''job1'' (replay [submit1])) = Inr () \<and>
   map_option (\<lambda>j. (status j, error j, result j))
     (jobs (snd (processVideoAnalysis run_blank ''job1'' (replay [submit1]))) ''job1'')
     = Some (failed, Some no_analysis_message, None) \<and>
   update_failed_raises run_blank_write_down \<noteq> None \<and>
   list_all is_space (accumulate (stream_chunks run_blank_write_down)) \<and>
   fst (queue [(''job1'', run_blank_write_down)] (replay [submit1])) = [Retry] \<and>
   map_option (\<lambda>j. (status j, error j, result j))
     (jobs (snd (processVideoAnalysis run_blank_write_down ''job1'' (replay [submit1]))) ''job1'')
     = Some (processing, None, None)"
proof -
  let ?w = "replay [submit1]"
  let ?j = "new_job ''https://youtu.be/abc'' ''summarize'' ''gemini-2.5-flash'' False 300 990000"
  have h: "update_processing_raises run_blank = None" "select_raises run_blank = None"
    "stream_raises run_blank = None" "catch_select_raises run_blank = None"
    "update_failed_raises run_blank = None"
    by (simp_all add: run_defs)
  have b: "list_all is_space (accumulate (stream_chunks run_blank))"
    by (simp add: run_defs is_space_def)
  obtain j' where "jobs (snd (processVideoAnalysis run_blank ''job1'' ?w)) ''job1'' = Some j'"
      "result j' = result ?j"
      "fst (processVideoAnalysis run_blank ''job1'' ?w) = Inr ()" "status j' = failed"
      "error j' = Some no_analysis_message"
    using blank_result_fails [OF h(1,2) job1_submitted h(3) b, of
        "fst (processVideoAnalysis run_blank ''job1'' ?w)"
        "snd (processVideoAnalysis run_blank ''job1'' ?w)"] h(4,5)
    by auto
  then have one: "fst (processVideoAnalysis run_blank ''job1'' ?w) = Inr () \<and>
      map_option (\<lambda>j. (status j, error j, result j))
        (jobs (snd (processVideoAnalysis run_blank ''job1'' ?w)) ''job1'')
        = Some (failed, Some no_analysis_message, None)"
    by (simp add: new_job_def)
  have g: "update_processing_raises run_blank_write_down = None"
    "select_raises run_blank_write_down = None" "stream_raises run_blank_write_down = None"
    "update_failed_raises run_blank_write_down \<noteq> None"
    by (simp_all add: run_defs)
  have c: "list_all is_space (accumulate (stream_chunks run_blank_write_down))"
    by (simp add: run_defs is_space_def)
  obtain j'' where "jobs (snd (processVideoAnalysis run_blank_write_down ''job1'' ?w)) ''job1'' = Some j''"
      "result j'' = result ?j" "status j'' = processing" "error j'' = error ?j"
      "fst (queue [(''job1'', run_blank_write_down)] ?w) = [Retry]"
    using blank_result_fails [OF g(1,2) job1_submitted g(3) c, of
        "fst (processVideoAnalysis run_blank_write_down ''job1'' ?w)"
        "snd (processVideoAnalysis run_blank_write_down ''job1'' ?w)"] g(4)
    by auto
  then have two: "fst (queue [(''job1'', run_blank_write_down)] ?w) = [Retry] \<and>
      map_option (\<lambda>j. (status j, error j, result j))
        (jobs (snd (processVideoAnalysis run_blank_write_down ''job1'' ?w)) ''job1'')
        = Some (processing, None, None)"
    by (simp add: new_job_def)
  show ?thesis using h b one g(4) c two by blast
qed

text \<open>
  Claim C8 as worded fails three ways: a call of one millisecond across the turn of a
  second records 1 second; a call that another delivery of the job overlaps records
  1010 seconds on a row whose times are 10 seconds apart; and a result that is not blank
  ends \<^verbatim>\<open>failed\<close> when the store refuses its write.
\<close>

theorem processing_time_not_elapsed:
  "map_option (\<lambda>j. (status j, started_at j, completed_at j, processing_time j))
     (jobs (replay [submit1, Deliver ''job1'' run_short]) ''job1'')
     = Some (completed, Some 1, Some 2, Some 1) \<and>
   (now_done run_short - now_start run_short) div 1000 = 0 \<and>
   map_option (\<lambda>j. (status j, started_at j, completed_at j, processing_time j))
     (jobs (replay [submit1, Arrive ''job1'' run_slow, Advance 0, Advance 0,
                    Arrive ''job1'' run_quota, Advance 1, Advance 0]) ''job1'')
     = Some (completed, Some 2000, Some 2010, Some 1010) \<and>
   stream_raises run_write_refused = None \<and>
   \<not> list_all is_space (accumulate (stream_chunks run_write_refused)) \<and>
   map_option (\<lambda>j. (status j, result j))
     (jobs (replay [submit1, Deliver ''job1'' run_write_refused]) ''job1'')
     = Some (failed, None)"
  by (simp add: run_defs eval_defs)

text \<open>
  Claim C8 as the code has it: a history without overlap, the write of a call that read
  1000 as start time on a row that by now says 2000, the write of a failure by a call that
  read no row, and a call that succeeds after 42.5 seconds.
\<close>

theorem processing_time_recorded_witness:
  "list_all alone [submit1, Deliver ''job1'' run_quota] \<and>
   map_option (\<lambda>j. (terminal (status j), started_at j, completed_at j, processing_time j))
     (jobs (replay [submit1, Deliver ''job1'' run_quota]) ''job1'')
     = Some (True, Some 2000, Some 2003, Some 3) \<and>
   step run_slow ''job1''
     (Streaming ((new_job ''https://youtu.be/abc'' ''summarize'' ''gemini-2.5-flash'' False 300 990000)
        \<lparr>status := processing, started_at := Some 1000\<rparr>))
     (replay [submit1, Deliver ''job1'' run_quota])
     = (Returned,
        snd (step run_slow ''job1''
          (Streaming ((new_job ''https://youtu.be/abc'' ''summarize'' ''gemini-2.5-flash'' False 300 990000)
             \<lparr>status := processing, started_at := Some 1000\<rparr>))
          (replay [submit1, Deliver ''job1'' run_quota]))) \<and>
   map_option (\<lambda>j. (status j, started_at j, completed_at j, processing_time j))
     (jobs (snd (step run_slow ''job1''
          (Streaming ((new_job ''https://youtu.be/abc'' ''summarize'' ''gemini-2.5-flash'' False 300 990000)
             \<lparr>status := processing, started_at := Some 1000\<rparr>))
          (replay [submit1, Deliver ''job1'' run_quota]))) ''job1'')
     = Some (completed, Some 2000, Some 2010, Some 1010) \<and>
   step run_quota ''job1'' (Reread (Error ''RESOURCE_EXHAUSTED: quota'') None) (replay [submit1])
     = (Returned,
        snd (step run_quota ''job1'' (Reread (Error ''RESOURCE_EXHAUSTED: quota'') None)
          (replay [submit1]))) \<and>
   map_option (\<lambda>j. (status j, completed_at j, processing_time j))
     (jobs (snd (step run_quota ''job1'' (Reread (Error ''RESOURCE_EXHAUSTED: quota'') None)
          (replay [submit1]))) ''job1'')
     = Some (failed, Some 2003, Some 0) \<and>
   \<not> list_all is_space (accumulate (stream_chunks run_ok)) \<and>
   fst (processVideoAnalysis run_ok ''job1'' (replay [submit1])) = Inr () \<and>
   map_option (\<lambda>j. (status j, result j, started_at j, completed_at j, processing_time j))
     (jobs (snd (processVideoAnalysis run_ok ''job1'' (replay [submit1]))) ''job1'')
     = Some (completed, Some ''A cat video.'', Some 1000, Some 1042, Some 42)"
proof -
  let ?w = "replay [submit1]"
  let ?j = "new_job ''https://youtu.be/abc'' ''summarize'' ''gemini-2.5-flash'' False 300 990000"
  let ?e = "[submit1, Deliver ''job1'' run_quota]"
  let ?read = "?j\<lparr>status := processing, started_at := Some 1000\<rparr>"
  let ?x = "Error ''RESOURCE_EXHAUSTED: quota''"
  have al: "list_all alone ?e" by (simp add: run_defs)
  have q: "map_option (\<lambda>j. (terminal (status j), started_at j, completed_at j))
     (jobs (replay ?e) ''job1'') = Some (True, Some 2000, Some 2003)"
    by (simp add: run_defs eval_defs terminal_def)
  then obtain j where j: "jobs (replay ?e) ''job1'' = Some j" "terminal (status j)"
      "started_at j = Some 2000" "completed_at j = Some 2003"
    by auto
  have s1: "step run_slow ''job1'' (Streaming ?read) (replay ?e)
      = (Returned, snd (step run_slow ''job1'' (Streaming ?read) (replay ?e)))"
    by (simp add: run_defs blank_def trim_def is_space_def)
  have s2: "step run_quota ''job1'' (Reread ?x None) ?w
      = (Returned, snd (step run_quota ''job1'' (Reread ?x None) ?w))"
    by (simp add: run_defs)
  have h: "update_processing_raises run_ok = None \<and> select_raises run_ok = None \<and>
      stream_raises run_ok = None \<and> update_completed_raises run_ok = None"
    by (simp add: run_defs)
  have b: "\<not> list_all is_space (accumulate (stream_chunks run_ok))"
    by (simp add: run_defs is_space_def)
  note t1 = processing_time_recorded [where evs = ?e and k = "''job1''" and j = j
      and r = run_slow and jobId = "''job1''" and job = ?read and w = "replay ?e"
      and w' = "snd (step run_slow ''job1'' (Streaming ?read) (replay ?e))" and ?j0.0 = j
      and x = ?x and read = None and u = "()"]
  note t2 = processing_time_recorded [where r = run_quota and jobId = "''job1''" and x = ?x
      and read = None and w = ?w
      and w' = "snd (step run_quota ''job1'' (Reread ?x None) ?w)" and ?j0.0 = ?j
      and evs = "[]" and k = "[]" and j = ?j and job = ?j and u = "()"]
  note t3 = processing_time_recorded [where r = run_ok and jobId = "''job1''" and w = ?w
      and ?j0.0 = ?j and evs = "[]" and k = "[]" and j = ?j and job = ?j and w' = ?w
      and x = ?x and read = None and u = "()"]
  have "processing_time j = Some 3" using t1 j al by auto
  then have a: "map_option (\<lambda>j. (terminal (status j), started_at j, completed_at j, processing_time j))
     (jobs (replay ?e) ''job1'') = Some (True, Some 2000, Some 2003, Some 3)"
    using j by simp
  have "jobs (snd (step run_slow ''job1'' (Streaming ?read) (replay ?e))) ''job1'' =
        Some (j\<lparr>status := completed, result := Some (accumulate (stream_chunks run_slow)),
                 completed_at := Some (to_driver (now_done run_slow)),
                 processing_time :=
                   Some (case started_at ?read of
                           None \<Rightarrow> 0
                         | Some s \<Rightarrow> to_driver (now_done run_slow) - s)\<rparr>)"
    by (rule t1 [THEN conjunct2, THEN conjunct1, rule_format, OF conjI, OF s1 j(1)])
  then have c: "map_option (\<lambda>j. (status j, started_at j, completed_at j, processing_time j))
     (jobs (snd (step run_slow ''job1'' (Streaming ?read) (replay ?e))) ''job1'')
     = Some (completed, Some 2000, Some 2010, Some 1010)"
    using j by (simp add: run_defs to_driver_def)
  note t2c = t2 [THEN conjunct2, THEN conjunct2, THEN conjunct1, rule_format, OF conjI,
      OF s2 job1_submitted]
  have d: "map_option (\<lambda>j. (status j, completed_at j, processing_time j))
     (jobs (snd (step run_quota ''job1'' (Reread ?x None) ?w)) ''job1'')
     = Some (failed, Some 2003, Some 0)"
    unfolding t2c by (simp add: run_defs to_driver_def)
  have e: "fst (processVideoAnalysis run_ok ''job1'' ?w) = Inr () \<and>
      jobs (snd (processVideoAnalysis run_ok ''job1'' ?w)) ''job1'' =
        Some (?j\<lparr>status := completed, started_at := Some (to_driver (now_start run_ok)),
                 result := Some (accumulate (stream_chunks run_ok)),
                 completed_at := Some (to_driver (now_done run_ok)),
                 processing_time := Some (to_driver (now_done run_ok) - to_driver (now_start run_ok))\<rparr>)"
    using t3 h b job1_submitted by blast
  have f: "to_driver (now_start run_ok) = 1000" "to_driver (now_done run_ok) = 1042"
    "accumulate (stream_chunks run_ok) = ''A cat video.''"
    by (simp_all add: run_defs to_driver_def)
  have g: "map_option (\<lambda>j. (status j, result j, started_at j, completed_at j, processing_time j))
     (jobs (snd (processVideoAnalysis run_ok ''job1'' ?w)) ''job1'')
     = Some (completed, Some ''A cat video.'', Some 1000, Some 1042, Some 42)"
    using e f by simp
  show ?thesis using al a s1 c s2 d b e g by blast
qed

text \<open>
  Claim C9 as worded fails: when the store refuses the write of the result, its error is
  written into the job and the message is acknowledged; and a message for a job id with
  no row is acknowledged.
\<close>

theorem store_fault_recorded_and_acknowledged:
  "update_completed_raises run_write_refused
     = Some (Error ''D1_ERROR: string or blob too big: SQLITE_TOOBIG'') \<and>
   fst (queue [(''job1'', run_write_refused)] (replay [submit1])) = [Ack] \<and>
   map_option (\<lambda>j. (status j, error j))
     (jobs (snd (queue [(''job1'', run_write_refused)] (replay [submit1]))) ''job1'')
     = Some (failed, Some ''D1_ERROR: string or blob too big: SQLITE_TOOBIG'') \<and>
   jobs (replay [submit1]) ''job2'' = None \<and>
   fst (queue [(''job2'', run_ok)] (replay [submit1])) = [Ack]"
  by (simp add: run_defs eval_defs)

text \<open>
  Claim C9 as the code has it, at a failure of the provider with the store down in the
  \<^verbatim>\<open>catch\<close> block, and with the store up.
\<close>

theorem caught_faults_are_recorded_witness:
  "catch_select_raises run_quota_store_down \<noteq> None \<and>
   stream_raises run_quota_store_down = Some (Error ''RESOURCE_EXHAUSTED: quota'') \<and>
   fst (queue [(''job1'', run_quota_store_down)] (replay [submit1])) = [Retry] \<and>
   map_option error (jobs (snd (processVideoAnalysis run_quota_store_down ''job1'' (replay [submit1]))) ''job1'')
     = Some None \<and>
   stream_raises run_quota = Some (Error ''RESOURCE_EXHAUSTED: quota'') \<and>
   catch_select_raises run_quota = None \<and> update_failed_raises run_quota = None \<and>
   fst (queue [(''job1'', run_quota)] (replay [submit1])) = [Ack] \<and>
   map_option error (jobs (snd (processVideoAnalysis run_quota ''job1'' (replay [submit1]))) ''job1'')
     = Some (Some ''API quota exceeded. Please try again later or upgrade your plan'')"
proof -
  let ?w = "replay [submit1]"
  let ?x = "Error ''RESOURCE_EXHAUSTED: quota''"
  have h1: "update_processing_raises run_quota_store_down = None"
    "select_raises run_quota_store_down = None"
    "stream_raises run_quota_store_down = Some ?x"
    "catch_select_raises run_quota_store_down \<noteq> None"
    by (simp_all add: run_defs)
  have h2: "update_processing_raises run_quota = None" "select_raises run_quota = None"
    "stream_raises run_quota = Some ?x" "catch_select_raises run_quota = None"
    "update_failed_raises run_quota = None"
    by (simp_all add: run_defs)
  have e: "jobs ?w ''job1'' \<noteq> None" "map_option error (jobs ?w ''job1'') = Some None"
    using job1_submitted by (simp_all add: new_job_def)
  have c: "classifyError ?x = ''API quota exceeded. Please try again later or upgrade your plan''"
    by (simp add: classifyError_def)
  note t1 = caught_faults_are_recorded [of run_quota_store_down "''job1''" ?w
      "fst (processVideoAnalysis run_quota_store_down ''job1'' ?w)"
      "snd (processVideoAnalysis run_quota_store_down ''job1'' ?w)" ?x]
  note t2 = caught_faults_are_recorded [of run_quota "''job1''" ?w
      "fst (processVideoAnalysis run_quota ''job1'' ?w)"
      "snd (processVideoAnalysis run_quota ''job1'' ?w)" ?x]
  have a: "fst (queue [(''job1'', run_quota_store_down)] ?w) = [Retry] \<and>
      map_option error (jobs (snd (processVideoAnalysis run_quota_store_down ''job1'' ?w)) ''job1'')
        = Some None"
    using t1 h1 e by auto
  have b: "fst (queue [(''job1'', run_quota)] ?w) = [Ack] \<and>
      map_option error (jobs (snd (processVideoAnalysis run_quota ''job1'' ?w)) ''job1'')
        = Some (Some ''API quota exceeded. Please try again later or upgrade your plan'')"
    using t2 h2 e c by auto
  show ?thesis using a b h1 h2 by simp
qed

end
